theory Spec2Isabelle
  imports Main "HOL-Library.Sublist" "HOL-Library.Signed_Division" "HOL-Library.AList"
    "HOL-Library.Multiset"
begin

section \<open>Go strings, slices and errors\<close>

text \<open>
  A Go \<^verbatim>\<open>string\<close> is a sequence of bytes; it is modelled by \<^typ>\<open>string\<close>, a list of
  8-bit characters, so \<^const>\<open>length\<close> is Go's \<^verbatim>\<open>len\<close>. Go's \<^verbatim>\<open>int\<close> is modelled by
  \<^typ>\<open>int\<close>; the two places of the reviewer that do arithmetic on line numbers coming
  from the model wrap at 64 bits (see \<open>wrap64\<close>).
\<close>

abbreviation NL :: char where "NL \<equiv> CHR 0x0A"
abbreviation TAB :: char where "TAB \<equiv> CHR 0x09"
abbreviation SPC :: char where "SPC \<equiv> CHR 0x20"
abbreviation BACKSLASH :: char where "BACKSLASH \<equiv> CHR 0x5C"
abbreviation DQUOTE :: char where "DQUOTE \<equiv> CHR 0x22"

datatype error =
    Panic                  \<comment> \<open>run-time panic: index or slice out of range, negative repeat count\<close>
  | ReadFailed string      \<comment> \<open>\<^verbatim>\<open>os.ReadFile\<close> returned an error for this path\<close>
  | WriteFailed string     \<comment> \<open>\<^verbatim>\<open>os.WriteFile\<close> returned an error for this path\<close>
  | GenerateFailed         \<comment> \<open>the model client returned an error\<close>
  | ParseFailed string     \<comment> \<open>\<^verbatim>\<open>json.Unmarshal\<close> failed; carries the raw text\<close>
  | MarshalFailed          \<comment> \<open>\<^verbatim>\<open>json.MarshalIndent\<close> failed\<close>
  | NoFixAvailable         \<comment> \<open>\<^verbatim>\<open>applyFix\<close>: "no fix available"\<close>
  | InputFailed            \<comment> \<open>reading a line from standard input failed\<close>

text \<open>\<^verbatim>\<open>xs[lo:hi]\<close> and \<^verbatim>\<open>xs[i]\<close>: Go panics outside \<open>0 \<le> lo \<le> hi \<le> len xs\<close>
  (every slice taken in this program has capacity equal to its length).\<close>

definition slice :: "'a list \<Rightarrow> int \<Rightarrow> int \<Rightarrow> error + 'a list" where
  "slice xs lo hi =
     (if 0 \<le> lo \<and> lo \<le> hi \<and> hi \<le> int (length xs)
      then Inr (take (nat hi - nat lo) (drop (nat lo) xs))
      else Inl Panic)"

definition index :: "'a list \<Rightarrow> int \<Rightarrow> error + 'a" where
  "index xs i = (if 0 \<le> i \<and> i < int (length xs) then Inr (xs ! nat i) else Inl Panic)"

definition HasPrefix :: "string \<Rightarrow> string \<Rightarrow> bool" where
  "HasPrefix s p = prefix p s"

definition TrimPrefix :: "string \<Rightarrow> string \<Rightarrow> string" where
  "TrimPrefix s p = (if prefix p s then drop (length p) s else s)"

definition TrimSuffix :: "string \<Rightarrow> string \<Rightarrow> string" where
  "TrimSuffix s p = (if suffix p s then take (length s - length p) s else s)"

definition Contains :: "string \<Rightarrow> string \<Rightarrow> bool" where
  "Contains s sub = sublist sub s"

text \<open>\<^verbatim>\<open>strings.Split(s, "\n")\<close> and \<^verbatim>\<open>strings.Join(xs, "\n")\<close>; the program only ever
  splits at a single byte, which is the separator argument here.\<close>

fun Split :: "string \<Rightarrow> char \<Rightarrow> string list" where
  "Split [] sep = [[]]"
| "Split (c # cs) sep =
     (if c = sep then [] # Split cs sep
      else (case Split cs sep of [] \<Rightarrow> [[c]] | l # ls \<Rightarrow> (c # l) # ls))"

fun Join :: "string list \<Rightarrow> string \<Rightarrow> string" where
  "Join [] sep = []"
| "Join [x] sep = x"
| "Join (x # y # ys) sep = x @ sep @ Join (y # ys) sep"

text \<open>
  \<^verbatim>\<open>strings.TrimSpace\<close> removes leading and trailing runes for which \<^verbatim>\<open>unicode.IsSpace\<close>
  holds. \<open>spaceRunes\<close> lists the UTF-8 encodings of exactly those runes: the six ASCII
  ones, U+0085, U+00A0, U+1680, U+2000..U+200A, U+2028, U+2029, U+202F, U+205F, U+3000.
\<close>

definition spaceRunes :: "string list" where
  "spaceRunes =
    [[CHR 0x09], [CHR 0x0A], [CHR 0x0B], [CHR 0x0C], [CHR 0x0D], [CHR 0x20],
     [CHR 0xC2, CHR 0x85], [CHR 0xC2, CHR 0xA0],
     [CHR 0xE1, CHR 0x9A, CHR 0x80],
     [CHR 0xE2, CHR 0x80, CHR 0x80], [CHR 0xE2, CHR 0x80, CHR 0x81],
     [CHR 0xE2, CHR 0x80, CHR 0x82], [CHR 0xE2, CHR 0x80, CHR 0x83],
     [CHR 0xE2, CHR 0x80, CHR 0x84], [CHR 0xE2, CHR 0x80, CHR 0x85],
     [CHR 0xE2, CHR 0x80, CHR 0x86], [CHR 0xE2, CHR 0x80, CHR 0x87],
     [CHR 0xE2, CHR 0x80, CHR 0x88], [CHR 0xE2, CHR 0x80, CHR 0x89],
     [CHR 0xE2, CHR 0x80, CHR 0x8A],
     [CHR 0xE2, CHR 0x80, CHR 0xA8], [CHR 0xE2, CHR 0x80, CHR 0xA9],
     [CHR 0xE2, CHR 0x80, CHR 0xAF], [CHR 0xE2, CHR 0x81, CHR 0x9F],
     [CHR 0xE3, CHR 0x80, CHR 0x80]]"

definition runeLen :: "string list \<Rightarrow> string \<Rightarrow> nat" where
  "runeLen encs s = (case find (\<lambda>e. prefix e s) encs of None \<Rightarrow> 0 | Some e \<Rightarrow> length e)"

function trimLeftBy :: "string list \<Rightarrow> string \<Rightarrow> string" where
  "trimLeftBy encs s =
     (if runeLen encs s = 0 then s else trimLeftBy encs (drop (runeLen encs s) s))"
  by pat_completeness auto
termination
proof (relation "measure (\<lambda>(encs, s). length s)")
  show "wf (measure (\<lambda>(encs, s). length s))" by simp
next
  fix encs :: "string list" and s :: string
  assume n: "runeLen encs s \<noteq> 0"
  then obtain e where "find (\<lambda>e. prefix e s) encs = Some e" "e \<noteq> []"
    by (auto simp: runeLen_def split: option.splits)
  then have "prefix e s" "e \<noteq> []" by (auto simp: find_Some_iff)
  then have "s \<noteq> []" by auto
  with n show "((encs, drop (runeLen encs s) s), (encs, s)) \<in> measure (\<lambda>(encs, s). length s)"
    by simp
qed

declare trimLeftBy.simps [simp del]

definition TrimSpace :: "string \<Rightarrow> string" where
  "TrimSpace s = rev (trimLeftBy (map rev spaceRunes) (rev (trimLeftBy spaceRunes s)))"

section \<open>Response Normalizer\<close>

text \<open>\<^verbatim>\<open>stripMarkdownCodeFences\<close> (scanner.go).\<close>

definition stripMarkdownCodeFences :: "string \<Rightarrow> string" where
  "stripMarkdownCodeFences s0 =
     (let s = TrimSpace s0;
          s = (if HasPrefix s ''```json'' then TrimPrefix s ''```json''
               else if HasPrefix s ''```'' then TrimPrefix s ''```''
               else s);
          s = TrimSuffix s ''```''
      in TrimSpace s)"

text \<open>\<^verbatim>\<open>fixJSONStringEscaping\<close>: the byte loop with its two flags; the output builder is the
  returned string.\<close>

fun fixJSONLoop :: "bool \<Rightarrow> bool \<Rightarrow> string \<Rightarrow> string" where
  "fixJSONLoop inString escaped [] = []"
| "fixJSONLoop inString escaped (ch # rest) =
     (if escaped then ch # fixJSONLoop inString False rest
      else if ch = BACKSLASH then ch # fixJSONLoop inString True rest
      else if ch = DQUOTE then ch # fixJSONLoop (\<not> inString) False rest
      else if inString \<and> ch = NL then [BACKSLASH, CHR ''n''] @ fixJSONLoop inString False rest
      else if inString \<and> ch = TAB then [BACKSLASH, CHR ''t''] @ fixJSONLoop inString False rest
      else ch # fixJSONLoop inString False rest)"

definition fixJSONStringEscaping :: "string \<Rightarrow> string" where
  "fixJSONStringEscaping jsonStr = fixJSONLoop False False jsonStr"

definition normalize :: "string \<Rightarrow> string" where
  "normalize s = fixJSONStringEscaping (stripMarkdownCodeFences s)"

section \<open>Line extraction\<close>

text \<open>\<^verbatim>\<open>extractLines\<close> (scanner.go).\<close>

definition extractLines :: "string list \<Rightarrow> int \<Rightarrow> int \<Rightarrow> error + string" where
  "extractLines lines lineStart lineEnd =
     (if lineStart < 1 \<or> lineStart > int (length lines) then Inr ''''
      else
        let lineEnd = (if lineEnd < lineStart \<or> lineEnd > int (length lines)
                       then int (length lines) else lineEnd)
        in case slice lines (lineStart - 1) lineEnd of
             Inl e \<Rightarrow> Inl e
           | Inr extracted \<Rightarrow> Inr (Join extracted [NL]))"

section \<open>Findings and the file system\<close>

text \<open>\<^verbatim>\<open>SecurityIssue\<close> (scanner.go). \<open>LineStart\<close> and \<open>LineEnd\<close> are whatever the model
  reported: any 64-bit integers.\<close>

record SecurityIssue =
  Severity :: string
  Title :: string
  Description :: string
  LineStart :: int
  LineEnd :: int
  Recommendation :: string
  Confidence :: string
  IssueID :: string
  SuggestedFix :: string
  FixAvailable :: bool

text \<open>The files the program reads and writes: a path has a content or cannot be read, and
  can be written or not. \<^verbatim>\<open>os.ReadFile\<close> and \<^verbatim>\<open>os.WriteFile\<close> fail accordingly.\<close>

record filesys =
  contents :: "string \<rightharpoonup> string"
  writable :: "string \<Rightarrow> bool"

definition ReadFile :: "filesys \<Rightarrow> string \<Rightarrow> error + string" where
  "ReadFile fs path =
     (case contents fs path of None \<Rightarrow> Inl (ReadFailed path) | Some c \<Rightarrow> Inr c)"

definition WriteFile :: "filesys \<Rightarrow> string \<Rightarrow> string \<Rightarrow> error + filesys" where
  "WriteFile fs path data =
     (if writable fs path then Inr (fs\<lparr>contents := (contents fs)(path \<mapsto> data)\<rparr>)
      else Inl (WriteFailed path))"

section \<open>Fix Applicator\<close>

text \<open>The clamping step of \<^verbatim>\<open>applyFix\<close>: its four \<^verbatim>\<open>if\<close> statements in order, with
  \<open>n\<close> for \<^verbatim>\<open>len(lines)\<close>.\<close>

definition clampLines :: "int \<Rightarrow> int \<Rightarrow> int \<Rightarrow> int \<times> int" where
  "clampLines n lineStart lineEnd =
     (let lineStart = (if lineStart < 1 then 1 else lineStart);
          lineStart = (if lineStart > n then n else lineStart);
          lineEnd = (if lineEnd < lineStart then lineStart else lineEnd);
          lineEnd = (if lineEnd > n then n else lineEnd)
      in (lineStart, lineEnd))"

text \<open>Leading blanks of the first line of the range (\<^verbatim>\<open>originalIndent\<close>).\<close>

definition originalIndentAt :: "string list \<Rightarrow> int \<Rightarrow> error + string" where
  "originalIndentAt lines lineStart =
     (if lineStart - 1 < int (length lines) then
        (case index lines (lineStart - 1) of
           Inl e \<Rightarrow> Inl e
         | Inr line \<Rightarrow>
             Inr (if length line > 0 then takeWhile (\<lambda>ch. ch = SPC \<or> ch = TAB) line else ''''))
      else Inr '''')"

text \<open>The indentation counter used twice in \<^verbatim>\<open>applyFix\<close>: a blank counts 1, a tab 4, and
  the first other character ends the count.\<close>

fun indentWidth :: "string \<Rightarrow> int" where
  "indentWidth [] = 0"
| "indentWidth (ch # rest) =
     (if ch = SPC then indentWidth rest + 1
      else if ch = TAB then indentWidth rest + 4
      else 0)"

fun minIndentLoop :: "int \<Rightarrow> string list \<Rightarrow> int" where
  "minIndentLoop minFixIndent [] = minFixIndent"
| "minIndentLoop minFixIndent (fixLine # rest) =
     (if TrimSpace fixLine = '''' then minIndentLoop minFixIndent rest
      else
        let indent = indentWidth fixLine
        in minIndentLoop (if minFixIndent = - 1 \<or> indent < minFixIndent then indent
                          else minFixIndent) rest)"

definition minFixIndentOf :: "string list \<Rightarrow> int" where
  "minFixIndentOf fixLines =
     (let minFixIndent = minIndentLoop (- 1) fixLines
      in if minFixIndent = - 1 then 0 else minFixIndent)"

text \<open>\<^verbatim>\<open>strings.Repeat\<close> panics on a negative count.\<close>

definition Repeat :: "string \<Rightarrow> int \<Rightarrow> error + string" where
  "Repeat s cnt =
     (if cnt < 0 then Inl Panic else Inr (concat (replicate (nat cnt) s)))"

text \<open>The body of the second loop over \<^verbatim>\<open>fixLines\<close>; \<open>sdiv\<close> and \<open>smod\<close> are Go's
  truncating \<^verbatim>\<open>/\<close> and \<^verbatim>\<open>%\<close>.\<close>

definition reindentLine :: "string \<Rightarrow> int \<Rightarrow> string \<Rightarrow> error + string" where
  "reindentLine originalIndent minFixIndent fixLine =
     (let trimmed = TrimSpace fixLine
      in if trimmed = '''' then Inr ''''
         else
           let currentIndent = indentWidth fixLine;
               relativeIndent = currentIndent - minFixIndent
           in if Contains originalIndent [TAB] then
                (case Repeat [TAB] (relativeIndent sdiv 4) of
                   Inl e \<Rightarrow> Inl e
                 | Inr tabs \<Rightarrow>
                     (case Repeat [SPC] (relativeIndent smod 4) of
                        Inl e \<Rightarrow> Inl e
                      | Inr spaces \<Rightarrow> Inr (originalIndent @ tabs @ spaces @ trimmed)))
              else
                (case Repeat [SPC] relativeIndent of
                   Inl e \<Rightarrow> Inl e
                 | Inr spaces \<Rightarrow> Inr (originalIndent @ spaces @ trimmed)))"

fun mapE :: "('a \<Rightarrow> error + 'b) \<Rightarrow> 'a list \<Rightarrow> error + 'b list" where
  "mapE f [] = Inr []"
| "mapE f (x # xs) =
     (case f x of
        Inl e \<Rightarrow> Inl e
      | Inr y \<Rightarrow> (case mapE f xs of Inl e \<Rightarrow> Inl e | Inr ys \<Rightarrow> Inr (y # ys)))"

text \<open>\<^verbatim>\<open>applyFix\<close> between reading and writing the file: from the lines of the file and the
  issue to the new lines.\<close>

definition spliceFix :: "string list \<Rightarrow> SecurityIssue \<Rightarrow> error + string list" where
  "spliceFix lines issue =
     (case clampLines (int (length lines)) (LineStart issue) (LineEnd issue) of
        (lineStart, lineEnd) \<Rightarrow>
          (case originalIndentAt lines lineStart of
             Inl e \<Rightarrow> Inl e
           | Inr originalIndent \<Rightarrow>
               let fixLines = Split (TrimSuffix (SuggestedFix issue) [NL]) NL;
                   minFixIndent = minFixIndentOf fixLines
               in (case mapE (reindentLine originalIndent minFixIndent) fixLines of
                     Inl e \<Rightarrow> Inl e
                   | Inr fixLines \<Rightarrow>
                       (case slice lines 0 (lineStart - 1) of
                          Inl e \<Rightarrow> Inl e
                        | Inr linesBefore \<Rightarrow>
                            (case (if lineEnd < int (length lines)
                                   then slice lines lineEnd (int (length lines))
                                   else Inr []) of
                               Inl e \<Rightarrow> Inl e
                             | Inr linesAfter \<Rightarrow>
                                 Inr (linesBefore @ fixLines @ linesAfter))))))"

text \<open>\<^verbatim>\<open>applyFix\<close> (scanner.go).\<close>

definition applyFix :: "filesys \<Rightarrow> string \<Rightarrow> SecurityIssue \<Rightarrow> error + filesys" where
  "applyFix fs filePath issue =
     (if \<not> FixAvailable issue \<or> SuggestedFix issue = '''' then Inl NoFixAvailable
      else
        (case ReadFile fs filePath of
           Inl e \<Rightarrow> Inl e
         | Inr content \<Rightarrow>
             (case spliceFix (Split content NL) issue of
                Inl e \<Rightarrow> Inl e
              | Inr newLines \<Rightarrow> WriteFile fs filePath (Join newLines [NL]))))"

section \<open>Static Pre-scanner\<close>

text \<open>\<^verbatim>\<open>triadStaticFinding\<close> (fields \<^verbatim>\<open>File\<close>, \<^verbatim>\<open>Line\<close>, \<^verbatim>\<open>Pattern\<close>, \<^verbatim>\<open>Severity\<close>).\<close>

record triadStaticFinding =
  sf_File :: string
  sf_Line :: int
  sf_Pattern :: string
  sf_Severity :: string

text \<open>\<^verbatim>\<open>strings.ToUpper\<close> and \<^verbatim>\<open>strings.ToLower\<close> on ASCII letters; bytes outside ASCII are left
  as they are (Go maps non-ASCII runes through the Unicode tables, which are not part of
  this development; the theorems below evaluate these functions on ASCII text only).\<close>

definition toUpperByte :: "char \<Rightarrow> char" where
  "toUpperByte c =
     (let n = (of_char c :: nat) in if 97 \<le> n \<and> n \<le> 122 then char_of (n - 32) else c)"

definition toLowerByte :: "char \<Rightarrow> char" where
  "toLowerByte c =
     (let n = (of_char c :: nat) in if 65 \<le> n \<and> n \<le> 90 then char_of (n + 32) else c)"

definition ToUpper :: "string \<Rightarrow> string" where
  "ToUpper s = map toUpperByte s"

definition ToLower :: "string \<Rightarrow> string" where
  "ToLower s = map toLowerByte s"

definition looksLikeSQLConcat :: "string \<Rightarrow> bool" where
  "looksLikeSQLConcat line =
     (let upper = ToUpper line
      in if \<not> (Contains upper ''SELECT'' \<or> Contains upper ''INSERT''
                \<or> Contains upper ''UPDATE'' \<or> Contains upper ''DELETE'')
         then False
         else Contains line ''+'' \<or> Contains line ''fmt.Sprintf'')"

definition userHints :: "string list" where
  "userHints = [''r.'', ''req'', ''request'', ''user'', ''input'', ''param'', ''query'', ''form'']"

definition looksLikeFmtSprintfUserInput :: "string \<Rightarrow> bool" where
  "looksLikeFmtSprintfUserInput line =
     (if \<not> Contains line ''fmt.Sprintf'' then False
      else list_ex (\<lambda>hint. Contains (ToLower line) hint) userHints)"

text \<open>The body of the inner loop of \<^verbatim>\<open>runTriadStaticAnalysis\<close>: the findings appended for
  one line, in the order of the five checks.\<close>

definition lineFindings :: "string \<Rightarrow> int \<Rightarrow> string \<Rightarrow> triadStaticFinding list" where
  "lineFindings filePath lineNum line =
     (let trimmed = TrimSpace line
      in (if Contains trimmed ''exec.Command''
          then [\<lparr>sf_File = filePath, sf_Line = lineNum, sf_Pattern = ''exec.Command'',
                 sf_Severity = ''High''\<rparr>] else [])
       @ (if Contains trimmed ''tls.Config'' \<and> Contains trimmed ''InsecureSkipVerify''
             \<and> Contains trimmed ''true''
          then [\<lparr>sf_File = filePath, sf_Line = lineNum,
                 sf_Pattern = ''tls.Config{InsecureSkipVerify: true}'',
                 sf_Severity = ''High''\<rparr>] else [])
       @ (if looksLikeSQLConcat trimmed
          then [\<lparr>sf_File = filePath, sf_Line = lineNum,
                 sf_Pattern = ''SQL string concatenation'', sf_Severity = ''High''\<rparr>] else [])
       @ (if Contains trimmed ''http.ListenAndServe''
          then [\<lparr>sf_File = filePath, sf_Line = lineNum, sf_Pattern = ''http.ListenAndServe'',
                 sf_Severity = ''Medium''\<rparr>] else [])
       @ (if looksLikeFmtSprintfUserInput trimmed
          then [\<lparr>sf_File = filePath, sf_Line = lineNum,
                 sf_Pattern = ''fmt.Sprintf with user input'', sf_Severity = ''Medium''\<rparr>]
          else []))"

text \<open>The loop over the lines of one file; \<open>i\<close> is the loop index, \<open>i + 1\<close> the line number.\<close>

fun scanLines :: "string \<Rightarrow> int \<Rightarrow> string list \<Rightarrow> triadStaticFinding list" where
  "scanLines filePath i [] = []"
| "scanLines filePath i (line # rest) =
     lineFindings filePath (i + 1) line @ scanLines filePath (i + 1) rest"

text \<open>\<^verbatim>\<open>runTriadStaticAnalysis\<close>. The Go map \<^verbatim>\<open>codeByFile\<close> is an association list with
  distinct keys; Go iterates a map in an unspecified order, the model in list order.\<close>

definition runTriadStaticAnalysis :: "(string \<times> string) list \<Rightarrow> triadStaticFinding list" where
  "runTriadStaticAnalysis codeByFile =
     concat (map (\<lambda>(filePath, content). scanLines filePath 0 (Split content NL)) codeByFile)"

section \<open>Scan Orchestrator\<close>

record ScanResult =
  FilePath :: string
  RawFindings :: string
  HasIssues :: bool
  Issues :: "SecurityIssue list"

text \<open>\<^verbatim>\<open>triadVulnerability\<close> and \<^verbatim>\<open>triadReport\<close> (the report's \<^verbatim>\<open>Confidence\<close> is
  \<open>r_Confidence\<close> here).\<close>

record triadVulnerability =
  v_Type :: string
  v_File :: string
  v_Line :: int
  v_Evidence :: string
  v_Recommendation :: string

record triadReport =
  FinalSeverity :: string
  r_Confidence :: string
  Vulnerabilities :: "triadVulnerability list"
  Summary :: string

definition zeroReport :: triadReport where
  "zeroReport = \<lparr>FinalSeverity = '''', r_Confidence = '''', Vulnerabilities = [], Summary = ''''\<rparr>"

text \<open>
  The \<^verbatim>\<open>Scanner\<close> with what it calls outside this package, as parameters:
  \<^item> \<open>Generate\<close> is \<^verbatim>\<open>s.client.Generate(s.modelName, prompt)\<close>, an HTTP request to the model
    server: it answers with a text or an error and changes the state \<open>'c\<close> of the outside
    world, so two calls with the same prompt may answer differently;
  \<^item> \<open>unmarshalFindings\<close> is \<^verbatim>\<open>json.Unmarshal\<close> into a fresh \<^verbatim>\<open>{Findings []SecurityIssue}\<close>,
    \<open>unmarshalReport\<close> is \<^verbatim>\<open>json.Unmarshal\<close> into the variable \<^verbatim>\<open>lastReport\<close>, whose current
    value is the second argument (Go keeps the fields the JSON text does not mention);
    \<open>None\<close> is a decoding error;
  \<^item> \<open>marshalReport\<close> and \<open>marshalStaticFindings\<close> are \<^verbatim>\<open>json.MarshalIndent\<close>;
  \<^item> the prompt builders of security.go and custom.go and \<^verbatim>\<open>renderFindings\<close> only format
    text: they produce the prompts sent to the model and the display text of a result.
  Progress messages and the debug log only write to the terminal and to a log file and
  are left out.
\<close>

record 'c Scanner =
  scanType :: string
  Generate :: "'c \<Rightarrow> string \<Rightarrow> (error + string) \<times> 'c"
  unmarshalFindings :: "string \<Rightarrow> SecurityIssue list option"
  unmarshalReport :: "string \<Rightarrow> triadReport \<Rightarrow> triadReport option"
  marshalReport :: "triadReport \<Rightarrow> string option"
  marshalStaticFindings :: "triadStaticFinding list \<Rightarrow> string"
  getContextPrompt :: "string \<Rightarrow> string \<Rightarrow> string"
  getScanPrompt :: "string \<Rightarrow> string \<Rightarrow> string \<Rightarrow> string"
  createCustomPrompt :: "string \<Rightarrow> string \<Rightarrow> string"
  getTriadAttackerPrompt :: "string \<Rightarrow> string \<Rightarrow> int \<Rightarrow> string"
  getTriadDefenderPrompt :: "string \<Rightarrow> string \<Rightarrow> string \<Rightarrow> int \<Rightarrow> string"
  getTriadAuditorPrompt :: "string \<Rightarrow> string \<Rightarrow> string \<Rightarrow> string \<Rightarrow> int \<Rightarrow> string"
  renderFindings :: "SecurityIssue list \<Rightarrow> string"

text \<open>\<^verbatim>\<open>addLineNumbers\<close>: each line is printed with \<^verbatim>\<open>"%4d | %s\n"\<close>.\<close>

function decimal :: "nat \<Rightarrow> string" where
  "decimal n = (if n < 10 then [char_of (48 + n)]
                else decimal (n div 10) @ [char_of (48 + n mod 10)])"
  by pat_completeness auto
termination
  by (relation "measure (\<lambda>n. n)") auto

declare decimal.simps [simp del]

definition padLeft :: "nat \<Rightarrow> string \<Rightarrow> string" where
  "padLeft w s = replicate (w - length s) SPC @ s"

fun numberLines :: "nat \<Rightarrow> string list \<Rightarrow> string" where
  "numberLines i [] = []"
| "numberLines i (line # rest) =
     padLeft 4 (decimal (i + 1)) @ '' | '' @ line @ [NL] @ numberLines (i + 1) rest"

definition addLineNumbers :: "string \<Rightarrow> string" where
  "addLineNumbers content = numberLines 0 (Split content NL)"

text \<open>\<^verbatim>\<open>scanFileWithProgress\<close>: the pipeline for one file. The result is the pair that Go
  returns, kept as the error or the \<^verbatim>\<open>ScanResult\<close>, with the state of the outside
  world after the calls.\<close>

definition scanFileWithProgress ::
  "'c Scanner \<Rightarrow> filesys \<Rightarrow> string \<Rightarrow> 'c \<Rightarrow> (error + ScanResult) \<times> 'c" where
  "scanFileWithProgress s fs filePath c =
     (let result = \<lparr>FilePath = filePath, RawFindings = '''', HasIssues = False, Issues = []\<rparr>
      in case ReadFile fs filePath of
           Inl e \<Rightarrow> (Inl e, c)
         | Inr content \<Rightarrow>
             if length content = 0 then (Inr result, c)
             else if length content > 100000 then (Inr result, c)
             else if scanType s = ''security'' then
               (let numberedContent = addLineNumbers content
                in case Generate s c (getContextPrompt s filePath numberedContent) of
                     (Inl e, c) \<Rightarrow> (Inl e, c)
                   | (Inr contextAnalysis, c) \<Rightarrow>
                       let contextAnalysis = stripMarkdownCodeFences contextAnalysis
                       in (case Generate s c
                                  (getScanPrompt s filePath numberedContent contextAnalysis) of
                             (Inl e, c) \<Rightarrow> (Inl e, c)
                           | (Inr findings, c) \<Rightarrow>
                               let findings = stripMarkdownCodeFences findings;
                                   findings = fixJSONStringEscaping findings
                               in (case unmarshalFindings s findings of
                                     None \<Rightarrow> (Inl (ParseFailed findings), c)
                                   | Some jsonFindings \<Rightarrow>
                                       (Inr (result\<lparr>Issues := jsonFindings,
                                                    HasIssues := length jsonFindings > 0,
                                                    RawFindings := renderFindings s jsonFindings\<rparr>),
                                        c))))
             else
               (let prompt = createCustomPrompt s filePath content
                in case Generate s c prompt of
                     (Inl e, c) \<Rightarrow> (Inl e, c)
                   | (Inr response, c) \<Rightarrow>
                       (Inr (result\<lparr>RawFindings := response,
                                    HasIssues := (TrimSpace response \<noteq> ''''),
                                    Issues := []\<rparr>),
                        c)))"

text \<open>The triad scan. \<^verbatim>\<open>strings.EqualFold\<close> is compared on ASCII letters; against the
  constant \<^verbatim>\<open>"HIGH"\<close> this is exact, since no other rune folds to H, I or G.\<close>

definition EqualFold :: "string \<Rightarrow> string \<Rightarrow> bool" where
  "EqualFold s t = (ToUpper s = ToUpper t)"

definition truncateText :: "string \<Rightarrow> nat \<Rightarrow> string" where
  "truncateText text maxLen = (if length text \<le> maxLen then text else take maxLen text)"

fun readTriadFiles ::
  "filesys \<Rightarrow> string list \<Rightarrow> (string \<times> string) list \<Rightarrow> error + (string \<times> string) list" where
  "readTriadFiles fs [] codeByFile = Inr codeByFile"
| "readTriadFiles fs (filePath # rest) codeByFile =
     (case ReadFile fs filePath of
        Inl e \<Rightarrow> Inl e
      | Inr content \<Rightarrow>
          if length content = 0 \<or> length content > 100000
          then readTriadFiles fs rest codeByFile
          else readTriadFiles fs rest (AList.update filePath content codeByFile))"

definition buildTriadSharedContext ::
  "'c Scanner \<Rightarrow> (string \<times> string) list \<Rightarrow> triadStaticFinding list \<Rightarrow> string" where
  "buildTriadSharedContext s codeByFile findings =
     (let code = concat (map (\<lambda>(filePath, content).
                   ''FILE: '' @ filePath @ [NL] @ addLineNumbers content @ [NL]) codeByFile);
          findingsJSON = marshalStaticFindings s findings;
          assumptions = ''Assume code runs as a network service. User input may be untrusted. External dependencies may be attacker-controlled.''
      in truncateText (''CODE:'' @ [NL] @ code @ [NL] @ ''STATIC_FINDINGS:'' @ [NL] @ findingsJSON
                       @ [NL] @ ''ASSUMPTIONS:'' @ [NL] @ assumptions @ [NL]) 16000)"

text \<open>One pass through the body of the round loop, up to and including the update of
  \<^verbatim>\<open>summary\<close>: attacker, defender, auditor, decoding.\<close>

definition triadRound ::
  "'c Scanner \<Rightarrow> string \<Rightarrow> int \<Rightarrow> triadReport \<Rightarrow> string \<Rightarrow> 'c
     \<Rightarrow> (error + triadReport \<times> string) \<times> 'c" where
  "triadRound s sharedContext round lastReport summary c =
     (case Generate s c (getTriadAttackerPrompt s sharedContext summary round) of
        (Inl e, c) \<Rightarrow> (Inl e, c)
      | (Inr attackerResp, c) \<Rightarrow>
          (case Generate s c
                  (getTriadDefenderPrompt s sharedContext summary attackerResp round) of
             (Inl e, c) \<Rightarrow> (Inl e, c)
           | (Inr defenderResp, c) \<Rightarrow>
               (case Generate s c
                       (getTriadAuditorPrompt s sharedContext summary attackerResp
                          defenderResp round) of
                  (Inl e, c) \<Rightarrow> (Inl e, c)
                | (Inr auditorResp, c) \<Rightarrow>
                    let auditorResp = stripMarkdownCodeFences auditorResp;
                        auditorResp = fixJSONStringEscaping auditorResp
                    in (case unmarshalReport s auditorResp lastReport of
                          None \<Rightarrow> (Inl (ParseFailed auditorResp), c)
                        | Some lastReport \<Rightarrow>
                            let summary = TrimSpace (Summary lastReport);
                                summary = (if summary = '''' then truncateText auditorResp 1200
                                           else summary)
                            in (Inr (lastReport, summary), c)))))"

text \<open>The loop \<^verbatim>\<open>for round := 1; round <= 3; round++\<close> with its \<^verbatim>\<open>break\<close>. Beside
  \<^verbatim>\<open>lastReport\<close> the function returns the number of rounds it has run, which the Go code
  does not keep.\<close>

function triadLoop ::
  "'c Scanner \<Rightarrow> string \<Rightarrow> int \<Rightarrow> triadReport \<Rightarrow> string \<Rightarrow> 'c
     \<Rightarrow> (error + triadReport \<times> int) \<times> 'c" where
  "triadLoop s sharedContext round lastReport summary c =
     (if round \<le> 3 then
        (case triadRound s sharedContext round lastReport summary c of
           (Inl e, c) \<Rightarrow> (Inl e, c)
         | (Inr (lastReport, summary), c) \<Rightarrow>
             if EqualFold (r_Confidence lastReport) ''HIGH''
             then (Inr (lastReport, round), c)
             else triadLoop s sharedContext (round + 1) lastReport summary c)
      else (Inr (lastReport, round - 1), c))"
  by pat_completeness auto
termination
  by (relation "measure (\<lambda>(s, sharedContext, round, lastReport, summary, c). nat (4 - round))")
     auto

declare triadLoop.simps [simp del]

text \<open>\<^verbatim>\<open>scanTriadFiles\<close>.\<close>

definition scanTriadFiles ::
  "'c Scanner \<Rightarrow> filesys \<Rightarrow> string list \<Rightarrow> 'c \<Rightarrow> (error + ScanResult) \<times> 'c" where
  "scanTriadFiles s fs files c =
     (let result = \<lparr>FilePath = ''triad:multi'', RawFindings = '''', HasIssues = False,
                    Issues = []\<rparr>
      in if length files = 0 then (Inr result, c)
         else
           (case readTriadFiles fs files [] of
              Inl e \<Rightarrow> (Inl e, c)
            | Inr codeByFile \<Rightarrow>
                if length codeByFile = 0 then (Inr result, c)
                else
                  let staticFindings = runTriadStaticAnalysis codeByFile;
                      sharedContext = buildTriadSharedContext s codeByFile staticFindings
                  in (case triadLoop s sharedContext 1 zeroReport '''' c of
                        (Inl e, c) \<Rightarrow> (Inl e, c)
                      | (Inr (lastReport, rounds), c) \<Rightarrow>
                          (case marshalReport s lastReport of
                             None \<Rightarrow> (Inl MarshalFailed, c)
                           | Some finalJSON \<Rightarrow>
                               (Inr (result\<lparr>RawFindings := finalJSON,
                                            HasIssues := length (Vulnerabilities lastReport) > 0\<rparr>),
                                c)))))"

text \<open>\<^verbatim>\<open>ScanFiles\<close>. Outside triad mode the Go code hands the files to three workers; each
  file is scanned by one call of \<^verbatim>\<open>scanFileWithProgress\<close> and the result is appended
  unless that call returned an error. The model runs the jobs one after the other in the
  order of \<open>files\<close>; the order of the returned list is not fixed in Go, and the theorems
  below speak of membership in it only.\<close>

fun scanJobs ::
  "'c Scanner \<Rightarrow> filesys \<Rightarrow> string list \<Rightarrow> ScanResult list \<Rightarrow> 'c \<Rightarrow> ScanResult list \<times> 'c" where
  "scanJobs s fs [] results c = (results, c)"
| "scanJobs s fs (file # rest) results c =
     (case scanFileWithProgress s fs file c of
        (Inl err, c) \<Rightarrow> scanJobs s fs rest results c
      | (Inr result, c) \<Rightarrow> scanJobs s fs rest (results @ [result]) c)"

definition ScanFiles ::
  "'c Scanner \<Rightarrow> filesys \<Rightarrow> string list \<Rightarrow> 'c \<Rightarrow> (error + ScanResult list) \<times> 'c" where
  "ScanFiles s fs files c =
     (if scanType s = ''triad'' then
        (case scanTriadFiles s fs files c of
           (Inl err, c) \<Rightarrow> (Inl err, c)
         | (Inr result, c) \<Rightarrow> (Inr [result], c))
      else
        (case scanJobs s fs files [] c of (results, c) \<Rightarrow> (Inr results, c)))"

section \<open>Interactive Reviewer\<close>

text \<open>\<^verbatim>\<open>strings.ReplaceAll\<close> for a non-empty \<open>old\<close> (the program only passes literals).\<close>

function ReplaceAll :: "string \<Rightarrow> string \<Rightarrow> string \<Rightarrow> string" where
  "ReplaceAll [] old new = []"
| "ReplaceAll (c # cs) old new =
     (if old \<noteq> [] \<and> prefix old (c # cs)
      then new @ ReplaceAll (drop (length old) (c # cs)) old new
      else c # ReplaceAll cs old new)"
  by pat_completeness auto
termination
  by (relation "measure (\<lambda>(s, old, new). length s)") (auto simp: neq_Nil_conv)

text \<open>\<^verbatim>\<open>extractCodeFromResponse\<close>: the loop collecting \<^verbatim>\<open>codeLines\<close>, then the function.\<close>

fun codeSectionLoop :: "bool \<Rightarrow> string list \<Rightarrow> string list" where
  "codeSectionLoop inCodeSection [] = []"
| "codeSectionLoop inCodeSection (line # rest) =
     (if HasPrefix (TrimSpace line) ''CODE:'' then codeSectionLoop True rest
      else if inCodeSection then
        (let trimmed = TrimSpace line
         in if trimmed = ''```'' \<or> HasPrefix trimmed ''```go'' \<or> HasPrefix trimmed ''```python''
               \<or> HasPrefix trimmed ''```java'' \<or> HasPrefix trimmed ''```javascript''
               \<or> HasPrefix trimmed ''```''
            then codeSectionLoop inCodeSection rest
            else line # codeSectionLoop inCodeSection rest)
      else codeSectionLoop inCodeSection rest)"

definition extractCodeFromResponse :: "string \<Rightarrow> string" where
  "extractCodeFromResponse response =
     (let lines = Split response NL;
          codeLines = codeSectionLoop False lines
      in if length codeLines = 0 then
           (let result = TrimSpace response;
                result = ReplaceAll result ''```go'' '''';
                result = ReplaceAll result ''```python'' '''';
                result = ReplaceAll result ''```java'' '''';
                result = ReplaceAll result ''```javascript'' '''';
                result = ReplaceAll result ''```'' ''''
            in TrimSpace result)
         else TrimSpace (Join codeLines [NL]))"

text \<open>Go's \<^verbatim>\<open>int\<close> arithmetic wraps at 64 bits.\<close>

definition wrap64 :: "int \<Rightarrow> int" where
  "wrap64 x = (x + 2 ^ 63) mod 2 ^ 64 - 2 ^ 63"

text \<open>The apply action of \<^verbatim>\<open>ReviewFindings\<close> between the backup and the call of
  \<^verbatim>\<open>applyFix\<close>: the fix text is extracted and \<^verbatim>\<open>LineEnd\<close> is widened when the fix has more
  lines than the range; \<open>lines\<close> are the cached lines of the file.\<close>

definition prepareFix :: "string list \<Rightarrow> SecurityIssue \<Rightarrow> SecurityIssue" where
  "prepareFix lines issue0 =
     (let issue = issue0\<lparr>SuggestedFix := extractCodeFromResponse (SuggestedFix issue0)\<rparr>;
          fixLineCount = int (length (Split (TrimSpace (SuggestedFix issue)) NL));
          originalLineCount = wrap64 (wrap64 (LineEnd issue - LineStart issue) + 1)
      in if fixLineCount > originalLineCount then
           (let issue = issue\<lparr>LineEnd := wrap64 (wrap64 (LineStart issue + fixLineCount) - 1)\<rparr>
            in if LineEnd issue > int (length lines)
               then issue\<lparr>LineEnd := int (length lines)\<rparr>
               else issue)
         else issue)"

text \<open>\<^verbatim>\<open>sort.Slice\<close> with the comparison \<^verbatim>\<open>findings[i].LineStart > findings[j].LineStart\<close>.
  The library promises a permutation ordered by the comparison and no stability; the model
  is an insertion sort, and the theorems use only that it is such a permutation.\<close>

fun insertDesc :: "SecurityIssue \<Rightarrow> SecurityIssue list \<Rightarrow> SecurityIssue list" where
  "insertDesc x [] = [x]"
| "insertDesc x (y # ys) =
     (if LineStart y > LineStart x then y # insertDesc x ys else x # y # ys)"

definition sortFindings :: "SecurityIssue list \<Rightarrow> SecurityIssue list" where
  "sortFindings findings = foldr insertDesc findings []"

text \<open>
  The state of the review loop: the local variables of \<^verbatim>\<open>ReviewFindings\<close> (\<open>curContent\<close>
  and \<open>curLines\<close> are \<^verbatim>\<open>content\<close> and \<^verbatim>\<open>lines\<close>) and the file system. \<open>appliedFixes\<close> lists the indices for which the Go map holds \<^verbatim>\<open>true\<close>, in the
  order in which they were set. Standard input is a list of complete lines;
  \<^verbatim>\<open>reader.ReadString\<close> fails when none is left. What the loop prints (the finding, the code
  context, the diff, the menu) is left out.
\<close>

record reviewState =
  currentIdx :: int
  appliedFixes :: "int list"
  backupCreated :: bool
  curContent :: string
  curLines :: "string list"
  fsys :: filesys

text \<open>One pass through the loop body after the choice has been read. \<open>Inl (st, pause)\<close>
  goes round the loop again, after reading one more line (``Press Enter to continue'',
  result ignored) when \<open>pause\<close> holds; \<open>Inr (err, fs)\<close> returns from \<^verbatim>\<open>ReviewFindings\<close>.\<close>

definition reviewStep ::
  "SecurityIssue list \<Rightarrow> string \<Rightarrow> reviewState \<Rightarrow> string
     \<Rightarrow> (reviewState \<times> bool) + (error option \<times> filesys)" where
  "reviewStep findings filePath st input =
     (case index findings (currentIdx st) of
        Inl e \<Rightarrow> Inr (Some e, fsys st)
      | Inr issue \<Rightarrow>
          let choice = ToLower (TrimSpace input)
          in if choice = ''a'' then
               (if \<not> FixAvailable issue then Inl (st, True)
                else if currentIdx st \<in> set (appliedFixes st) then Inl (st, True)
                else
                  (case (if \<not> backupCreated st
                         then WriteFile (fsys st) (filePath @ ''.backup'') (curContent st)
                         else Inr (fsys st)) of
                     Inl e \<Rightarrow> Inl (st, True)
                   | Inr fs1 \<Rightarrow>
                       let st = st\<lparr>backupCreated := True, fsys := fs1\<rparr>;
                           issue = prepareFix (curLines st) issue
                       in (case applyFix (fsys st) filePath issue of
                             Inl e \<Rightarrow> Inl (st, True)
                           | Inr fs2 \<Rightarrow>
                               let st = st\<lparr>appliedFixes := appliedFixes st @ [currentIdx st],
                                           fsys := fs2\<rparr>
                               in (case ReadFile fs2 filePath of
                                     Inl e \<Rightarrow> Inr (Some e, fs2)
                                   | Inr content' \<Rightarrow>
                                       let st = st\<lparr>curContent := content',
                                                   curLines := Split content' NL\<rparr>
                                       in if currentIdx st < int (length findings) - 1
                                          then Inl (st\<lparr>currentIdx := currentIdx st + 1\<rparr>, False)
                                          else Inr (None, fsys st)))))
             else if choice = ''s'' then
               (if \<not> FixAvailable issue then Inl (st, True)
                else (case extractLines (curLines st) (LineStart issue) (LineEnd issue) of
                        Inl e \<Rightarrow> Inr (Some e, fsys st)
                      | Inr original \<Rightarrow> Inl (st, True)))
             else if choice = ''i'' then
               (if currentIdx st < int (length findings) - 1
                then Inl (st\<lparr>currentIdx := currentIdx st + 1\<rparr>, False)
                else Inr (None, fsys st))
             else if choice = ''n'' then
               (if currentIdx st < int (length findings) - 1
                then Inl (st\<lparr>currentIdx := currentIdx st + 1\<rparr>, False)
                else Inl (st, True))
             else if choice = ''p'' then
               (if currentIdx st > 0
                then Inl (st\<lparr>currentIdx := currentIdx st - 1\<rparr>, False)
                else Inl (st, True))
             else if choice = ''q'' then Inr (None, fsys st)
             else Inl (st, True))"

function reviewLoop ::
  "SecurityIssue list \<Rightarrow> string \<Rightarrow> reviewState \<Rightarrow> string list \<Rightarrow> error option \<times> filesys" where
  "reviewLoop findings filePath st [] = (Some InputFailed, fsys st)"
| "reviewLoop findings filePath st (input # rest) =
     (case reviewStep findings filePath st input of
        Inr res \<Rightarrow> res
      | Inl (st', pause) \<Rightarrow> reviewLoop findings filePath st' (if pause then tl rest else rest))"
  by pat_completeness auto
termination
  by (relation "measure (\<lambda>(findings, filePath, st, stdin). length stdin)") auto

text \<open>\<^verbatim>\<open>ReviewFindings\<close>, with the lines typed by the user as last argument.\<close>

definition ReviewFindings ::
  "filesys \<Rightarrow> SecurityIssue list \<Rightarrow> string \<Rightarrow> string list \<Rightarrow> error option \<times> filesys" where
  "ReviewFindings fs findings0 filePath stdin =
     (if length findings0 = 0 then (None, fs)
      else
        let findings = sortFindings findings0
        in (case ReadFile fs filePath of
              Inl e \<Rightarrow> (Some e, fs)
            | Inr content0 \<Rightarrow>
                reviewLoop findings filePath
                  \<lparr>currentIdx = 0, appliedFixes = [], backupCreated = False,
                   curContent = content0, curLines = Split content0 NL, fsys = fs\<rparr>
                  stdin))"

section \<open>Auxiliary notions and example inputs\<close>

text \<open>A string is trimmed when no space rune begins or ends it.\<close>

definition trimmed :: "string \<Rightarrow> bool" where
  "trimmed s \<longleftrightarrow> (\<forall>e \<in> set spaceRunes. \<not> prefix e s \<and> \<not> suffix e s)"

text \<open>A model response wrapped in two layers of fences, and one wrapped in a single layer.\<close>

definition nestedFences :: string where
  "nestedFences =
     ''```json'' @ [NL] @ ''```json'' @ [NL] @ ''{}'' @ [NL] @ ''```'' @ [NL] @ ''```''"

definition singleFence :: string where
  "singleFence = ''```json'' @ [NL] @ ''{}'' @ [NL] @ ''```''"



text \<open>A file system given by its files, all writable; an issue with a fix; a scanner whose
  model answers with the texts of a list in turn, and whose decoders know a few JSON
  texts, on which they agree with \<^verbatim>\<open>json.Unmarshal\<close>.\<close>

definition mkFS :: "(string \<times> string) list \<Rightarrow> filesys" where
  "mkFS files = \<lparr>contents = map_of files, writable = (\<lambda>path. True)\<rparr>"

definition demoIssue :: "int \<Rightarrow> int \<Rightarrow> string \<Rightarrow> SecurityIssue" where
  "demoIssue a b fix =
     \<lparr>Severity = ''HIGH'', Title = ''Command injection'', Description = '''', LineStart = a,
      LineEnd = b, Recommendation = '''', Confidence = ''HIGH'', IssueID = ''CWE-78'',
      SuggestedFix = fix, FixAvailable = True\<rparr>"

definition quoted :: "string \<Rightarrow> string" where
  "quoted s = [DQUOTE] @ s @ [DQUOTE]"

definition noFindingsJSON :: string where
  "noFindingsJSON = ''{'' @ quoted ''findings'' @ '': []}''"

definition oneFindingJSON :: string where
  "oneFindingJSON = ''{'' @ quoted ''findings'' @ '': [{'' @ quoted ''line_start'' @ '': 5, ''
     @ quoted ''line_end'' @ '': 5}]}''"

definition auditLowJSON :: string where
  "auditLowJSON = ''{'' @ quoted ''confidence'' @ '': '' @ quoted ''Low'' @ '', ''
     @ quoted ''summary'' @ '': '' @ quoted ''unclear'' @ ''}''"

definition auditHighJSON :: string where
  "auditHighJSON = ''{'' @ quoted ''confidence'' @ '': '' @ quoted ''high'' @ '', ''
     @ quoted ''summary'' @ '': '' @ quoted ''done'' @ '', ''
     @ quoted ''vulnerabilities'' @ '': [{'' @ quoted ''type'' @ '': ''
     @ quoted ''Command injection'' @ '', '' @ quoted ''line'' @ '': 5}]}''"

definition zeroIssue :: SecurityIssue where
  "zeroIssue = \<lparr>Severity = '''', Title = '''', Description = '''', LineStart = 0,
      LineEnd = 0, Recommendation = '''', Confidence = '''', IssueID = '''',
      SuggestedFix = '''', FixAvailable = False\<rparr>"

definition cannedGenerate :: "string list \<Rightarrow> string \<Rightarrow> (error + string) \<times> string list" where
  "cannedGenerate c prompt =
     (case c of [] \<Rightarrow> (Inl GenerateFailed, []) | r # rs \<Rightarrow> (Inr r, rs))"

definition demoScanner :: "string \<Rightarrow> string list Scanner" where
  "demoScanner mode =
     \<lparr>scanType = mode,
      Generate = cannedGenerate,
      unmarshalFindings = (\<lambda>raw.
         if raw = noFindingsJSON then Some []
         else if raw = oneFindingJSON then Some [zeroIssue\<lparr>LineStart := 5, LineEnd := 5\<rparr>]
         else None),
      unmarshalReport = (\<lambda>raw lastReport.
         if raw = auditLowJSON
         then Some (lastReport\<lparr>r_Confidence := ''Low'', Summary := ''unclear''\<rparr>)
         else if raw = auditHighJSON
         then Some (lastReport\<lparr>r_Confidence := ''high'', Summary := ''done'',
                 Vulnerabilities := [\<lparr>v_Type = ''Command injection'', v_File = '''', v_Line = 5,
                                      v_Evidence = '''', v_Recommendation = ''''\<rparr>]\<rparr>)
         else None),
      marshalReport = (\<lambda>report. Some (''confidence='' @ r_Confidence report)),
      marshalStaticFindings = (\<lambda>findings. concat (map sf_Pattern findings)),
      getContextPrompt = (\<lambda>filename content. ''context of '' @ filename),
      getScanPrompt = (\<lambda>filename content context. ''scan '' @ filename),
      createCustomPrompt = (\<lambda>filename content. ''explain '' @ filename),
      getTriadAttackerPrompt = (\<lambda>sharedContext summary round. ''attack''),
      getTriadDefenderPrompt = (\<lambda>sharedContext summary attackerResponse round. ''defend''),
      getTriadAuditorPrompt =
        (\<lambda>sharedContext summary attackerResponse defenderResponse round. ''audit''),
      renderFindings = (\<lambda>issues. if issues = [] then ''No security issues found.'' else ''Security Analysis Report'')\<rparr>"

text \<open>The result that \<^verbatim>\<open>scanFileWithProgress\<close> starts from.\<close>

definition emptyResult :: "string \<Rightarrow> ScanResult" where
  "emptyResult filePath = \<lparr>FilePath = filePath, RawFindings = '''', HasIssues = False, Issues = []\<rparr>"

text \<open>What a triad scan computes on the way, for stating its properties: the shared
  context, when at least one file qualifies, and the report and number of rounds the
  round loop ends with, when no call fails.\<close>

definition triadContext :: "'c Scanner \<Rightarrow> filesys \<Rightarrow> string list \<Rightarrow> string option" where
  "triadContext s fs files =
     (if length files = 0 then None
      else (case readTriadFiles fs files [] of
              Inl e \<Rightarrow> None
            | Inr codeByFile \<Rightarrow>
                if length codeByFile = 0 then None
                else Some (buildTriadSharedContext s codeByFile
                             (runTriadStaticAnalysis codeByFile))))"

definition triadFinalReport ::
  "'c Scanner \<Rightarrow> filesys \<Rightarrow> string list \<Rightarrow> 'c \<Rightarrow> (triadReport \<times> int) option" where
  "triadFinalReport s fs files c =
     (case triadContext s fs files of
        None \<Rightarrow> None
      | Some sharedContext \<Rightarrow>
          (case triadLoop s sharedContext 1 zeroReport '''' c of
             (Inl e, c') \<Rightarrow> None
           | (Inr res, c') \<Rightarrow> Some res))"






text \<open>The lines of a file of the file system (none when it cannot be read), a file of twenty
  lines whose line 10 is indented by two blanks, and a fix of three lines.\<close>

definition fileLines :: "filesys \<Rightarrow> string \<Rightarrow> string list" where
  "fileLines fs path = (case contents fs path of None \<Rightarrow> [] | Some c \<Rightarrow> Split c NL)"

definition demoLines20 :: "string list" where
  "demoLines20 = [''line 01'', ''line 02'', ''line 03'', ''line 04'', ''line 05'',
                  ''line 06'', ''line 07'', ''line 08'', ''line 09'', ''  line 10'',
                  ''line 11'', ''line 12'', ''line 13'', ''line 14'', ''line 15'',
                  ''line 16'', ''line 17'', ''line 18'', ''line 19'', ''line 20'']"

definition demoFS20 :: filesys where
  "demoFS20 = mkFS [(''main.go'', Join demoLines20 [NL])]"

definition demoFix3 :: string where
  "demoFix3 = ''fix A'' @ [NL] @ ''  fix B'' @ [NL] @ ''fix C''"

section \<open>Properties\<close>

lemma fixJSONLoop_clean:
  "NL \<notin> set s \<Longrightarrow> TAB \<notin> set s \<Longrightarrow> fixJSONLoop inString escaped s = s"
  by (induction s arbitrary: inString escaped) auto

text \<open>
  C9. The escape-repair pass is the identity on every string that contains neither a
  literal newline (0x0A) nor a literal tab (0x09), whatever its quotes and backslashes.
\<close>

theorem fixJSONStringEscaping_clean_identity:
  "NL \<notin> set s \<Longrightarrow> TAB \<notin> set s \<Longrightarrow> fixJSONStringEscaping s = s"
  by (simp add: fixJSONStringEscaping_def fixJSONLoop_clean)

theorem fixJSONStringEscaping_clean_identity_witness:
  "NL \<notin> set [DQUOTE, CHR ''a'', BACKSLASH, DQUOTE, SPC, CHR ''}'', DQUOTE]
   \<and> TAB \<notin> set [DQUOTE, CHR ''a'', BACKSLASH, DQUOTE, SPC, CHR ''}'', DQUOTE]
   \<and> fixJSONStringEscaping [DQUOTE, CHR ''a'', BACKSLASH, DQUOTE, SPC, CHR ''}'', DQUOTE]
       = [DQUOTE, CHR ''a'', BACKSLASH, DQUOTE, SPC, CHR ''}'', DQUOTE]"
  using fixJSONStringEscaping_clean_identity
          [of "[DQUOTE, CHR ''a'', BACKSLASH, DQUOTE, SPC, CHR ''}'', DQUOTE]"]
  by simp


lemma clampLines_range:
  assumes "1 \<le> n" and "clampLines n lineStart lineEnd = (a, b)"
  shows "1 \<le> a \<and> a \<le> b \<and> b \<le> n"
  using assms by (auto simp: clampLines_def Let_def split: if_splits)

lemma Split_nonempty: "Split s sep \<noteq> []"
  by (induction s) (auto split: list.splits)

lemma indentWidth_nonneg: "0 \<le> indentWidth s"
  by (induction s) auto

lemma minIndentLoop_le_start: "0 \<le> m \<Longrightarrow> minIndentLoop m ls \<le> m \<and> 0 \<le> minIndentLoop m ls"
proof (induction ls arbitrary: m)
  case Nil
  then show ?case by simp
next
  case (Cons l ls)
  show ?case
  proof (cases "TrimSpace l = ''''")
    case True
    with Cons show ?thesis by simp
  next
    case False
    define m' where "m' = (if m = - 1 \<or> indentWidth l < m then indentWidth l else m)"
    have m': "0 \<le> m'" "m' \<le> m"
      using Cons.prems indentWidth_nonneg [of l] by (auto simp: m'_def)
    have step: "minIndentLoop m (l # ls) = minIndentLoop m' ls"
      using False by (simp add: m'_def Let_def)
    from Cons.IH [OF m'(1)] m'(2) show ?thesis
      unfolding step by linarith
  qed
qed

lemma minIndentLoop_le_line:
  assumes "- 1 \<le> m" and "l \<in> set ls" and "TrimSpace l \<noteq> ''''"
  shows "minIndentLoop m ls \<le> indentWidth l \<and> 0 \<le> minIndentLoop m ls"
  using assms
proof (induction ls arbitrary: m)
  case Nil
  then show ?case by simp
next
  case (Cons x xs)
  define m' where "m' = (if m = - 1 \<or> indentWidth x < m then indentWidth x else m)"
  have m'0: "0 \<le> m'"
    using Cons.prems(1) indentWidth_nonneg [of x] by (auto simp: m'_def)
  have step: "TrimSpace x \<noteq> '''' \<Longrightarrow> minIndentLoop m (x # xs) = minIndentLoop m' xs"
    by (simp add: m'_def Let_def)
  show ?case
  proof (cases "TrimSpace x = ''''")
    case True
    then have "l \<noteq> x" using Cons.prems(3) by auto
    then have "l \<in> set xs" using Cons.prems(2) by simp
    from Cons.IH [OF Cons.prems(1) this Cons.prems(3)] True show ?thesis by simp
  next
    case False
    show ?thesis
    proof (cases "l = x")
      case True
      have "m' \<le> indentWidth x" by (auto simp: m'_def)
      with minIndentLoop_le_start [OF m'0, of xs] True show ?thesis
        unfolding step [OF False] by auto
    next
      case False
      then have lin: "l \<in> set xs" using Cons.prems(2) by simp
      have "- 1 \<le> m'" using m'0 by linarith
      from Cons.IH [OF this lin Cons.prems(3)] show ?thesis
        unfolding step [OF \<open>TrimSpace x \<noteq> ''''\<close>] .
    qed
  qed
qed

lemma minFixIndentOf_le_line:
  assumes "l \<in> set ls" and "TrimSpace l \<noteq> ''''"
  shows "minFixIndentOf ls \<le> indentWidth l"
  using minIndentLoop_le_line [of "- 1" l ls] assms
  by (auto simp: minFixIndentOf_def Let_def)

lemma reindentLine_ok:
  assumes "TrimSpace l \<noteq> '''' \<Longrightarrow> m \<le> indentWidth l"
  shows "\<exists>r. reindentLine oi m l = Inr r"
proof (cases "TrimSpace l = ''''")
  case True
  then show ?thesis by (simp add: reindentLine_def)
next
  case False
  then have rel: "0 \<le> indentWidth l - m" using assms by simp
  then have "0 \<le> (indentWidth l - m) sdiv 4" "0 \<le> (indentWidth l - m) smod 4"
    by (simp_all add: signed_divide_int_def signed_modulo_int_def sgn_if)
  with rel False show ?thesis
    by (simp add: reindentLine_def Repeat_def Let_def)
qed

lemma mapE_ok:
  assumes "\<And>x. x \<in> set xs \<Longrightarrow> \<exists>y. f x = Inr y"
  shows "\<exists>ys. mapE f xs = Inr ys \<and> length ys = length xs"
  using assms
proof (induction xs)
  case Nil
  then show ?case by simp
next
  case (Cons x xs)
  then obtain y ys where "f x = Inr y" "mapE f xs = Inr ys" "length ys = length xs"
    by (metis list.set_intros(1,2))
  then show ?case by simp
qed

lemma spliceFix_ok:
  assumes "lines \<noteq> []"
  shows "\<exists>newLines. spliceFix lines issue = Inr newLines"
proof -
  obtain a b where ab: "clampLines (int (length lines)) (LineStart issue) (LineEnd issue) = (a, b)"
    by (cases "clampLines (int (length lines)) (LineStart issue) (LineEnd issue)")
  from assms have n: "1 \<le> int (length lines)" by (cases lines) auto
  from clampLines_range [OF n ab] have r: "1 \<le> a" "a \<le> b" "b \<le> int (length lines)" by auto
  then obtain oi where oi: "originalIndentAt lines a = Inr oi"
    by (auto simp: originalIndentAt_def index_def)
  let ?fl = "Split (TrimSuffix (SuggestedFix issue) [NL]) NL"
  have "\<exists>ys. mapE (reindentLine oi (minFixIndentOf ?fl)) ?fl = Inr ys \<and> length ys = length ?fl"
    by (rule mapE_ok) (rule reindentLine_ok, rule minFixIndentOf_le_line)
  then obtain ys where ys: "mapE (reindentLine oi (minFixIndentOf ?fl)) ?fl = Inr ys" by blast
  from r ab oi ys show ?thesis
    by (simp add: spliceFix_def slice_def Let_def)
qed

text \<open>
  C4. For a file of at least one line and any integers \<open>lineStart\<close>, \<open>lineEnd\<close>, the
  clamping step yields \<open>1 \<le> lineStart \<le> lineEnd \<le> lineCount\<close>; and \<open>applyFix\<close> fails
  exactly when there is no fix, the file cannot be read or it cannot be written, so the
  line numbers of the issue never cause an error (in particular no out-of-range panic).
\<close>

theorem applyFix_clamp_in_range:
  "(1 \<le> n \<longrightarrow> (case clampLines n lineStart lineEnd of (a, b) \<Rightarrow> 1 \<le> a \<and> a \<le> b \<and> b \<le> n))
   \<and> (isl (applyFix fs filePath issue) \<longleftrightarrow>
        (\<not> FixAvailable issue \<or> SuggestedFix issue = '''' \<or> contents fs filePath = None
         \<or> \<not> writable fs filePath))"
proof
  show "1 \<le> n \<longrightarrow> (case clampLines n lineStart lineEnd of (a, b) \<Rightarrow> 1 \<le> a \<and> a \<le> b \<and> b \<le> n)"
    using clampLines_range [of n lineStart lineEnd]
    by (cases "clampLines n lineStart lineEnd") auto
next
  show "isl (applyFix fs filePath issue) \<longleftrightarrow>
        (\<not> FixAvailable issue \<or> SuggestedFix issue = '''' \<or> contents fs filePath = None
         \<or> \<not> writable fs filePath)"
  proof (cases "contents fs filePath")
    case None
    then show ?thesis by (simp add: applyFix_def ReadFile_def)
  next
    case (Some content)
    obtain newLines where "spliceFix (Split content NL) issue = Inr newLines"
      using spliceFix_ok [OF Split_nonempty] by blast
    with Some show ?thesis
      by (simp add: applyFix_def ReadFile_def WriteFile_def)
  qed
qed

theorem applyFix_clamp_in_range_witness:
  "(1::int) \<le> 20 \<and> clampLines 20 (- 7) 300 = (1, 20)
   \<and> \<not> isl (applyFix demoFS20 ''main.go'' (demoIssue (- 7) 300 demoFix3))"
proof -
  have "1 \<le> fst (clampLines 20 (- 7) 300) \<and> snd (clampLines 20 (- 7) 300) \<le> 20
        \<and> \<not> isl (applyFix demoFS20 ''main.go'' (demoIssue (- 7) 300 demoFix3))"
    using applyFix_clamp_in_range
            [of 20 "- 7" 300 demoFS20 "''main.go''" "demoIssue (- 7) 300 demoFix3"]
    by (simp add: split_beta demoFS20_def mkFS_def demoIssue_def demoFix3_def)
  moreover have "clampLines 20 (- 7) 300 = (1, 20)" by (simp add: clampLines_def)
  ultimately show ?thesis by simp
qed

text \<open>
  C10. \<open>extractLines\<close> returns for every list of lines and every pair of integers, never
  with an out-of-range slice; the result is empty when \<open>lineStart < 1\<close> or
  \<open>lineStart > length lines\<close>, and otherwise the join of the lines from \<open>lineStart\<close> to the
  end of the range, all taken from within the list.
\<close>

theorem extractLines_total_in_bounds:
  "(\<exists>s. extractLines lines lineStart lineEnd = Inr s)
   \<and> (lineStart < 1 \<or> lineStart > int (length lines) \<longrightarrow>
        extractLines lines lineStart lineEnd = Inr '''')
   \<and> (1 \<le> lineStart \<and> lineStart \<le> int (length lines) \<longrightarrow>
        (\<exists>i j. i < j \<and> j \<le> length lines \<and> int i = lineStart - 1
           \<and> int j = (if lineEnd < lineStart \<or> lineEnd > int (length lines)
                      then int (length lines) else lineEnd)
           \<and> extractLines lines lineStart lineEnd = Inr (Join (take (j - i) (drop i lines)) [NL])))"
proof (intro conjI impI)
  show "\<exists>s. extractLines lines lineStart lineEnd = Inr s"
    by (auto simp: extractLines_def slice_def Let_def)
next
  assume "lineStart < 1 \<or> lineStart > int (length lines)"
  then show "extractLines lines lineStart lineEnd = Inr ''''"
    by (auto simp: extractLines_def)
next
  assume r: "1 \<le> lineStart \<and> lineStart \<le> int (length lines)"
  let ?e = "if lineEnd < lineStart \<or> lineEnd > int (length lines)
            then int (length lines) else lineEnd"
  from r have e: "lineStart \<le> ?e" "?e \<le> int (length lines)" by auto
  show "\<exists>i j. i < j \<and> j \<le> length lines \<and> int i = lineStart - 1 \<and> int j = ?e
          \<and> extractLines lines lineStart lineEnd = Inr (Join (take (j - i) (drop i lines)) [NL])"
  proof (intro exI conjI)
    show "nat (lineStart - 1) < nat ?e" using r e by linarith
    show "nat ?e \<le> length lines" using e by linarith
    show "int (nat (lineStart - 1)) = lineStart - 1" using r by simp
    show "int (nat ?e) = ?e" using r e by linarith
    show "extractLines lines lineStart lineEnd
          = Inr (Join (take (nat ?e - nat (lineStart - 1)) (drop (nat (lineStart - 1)) lines)) [NL])"
      using r e by (auto simp: extractLines_def slice_def Let_def)
  qed
qed

theorem extractLines_total_in_bounds_witness:
  "extractLines demoLines20 0 5 = Inr ''''
   \<and> extractLines demoLines20 21 25 = Inr ''''
   \<and> extractLines demoLines20 19 300 = Inr (''line 19'' @ [NL] @ ''line 20'')"
proof -
  have len: "int (length demoLines20) = 20" by (simp add: demoLines20_def)
  have a: "extractLines demoLines20 0 5 = Inr ''''"
    using extractLines_total_in_bounds [of demoLines20 0 5] by simp
  have b: "extractLines demoLines20 21 25 = Inr ''''"
    using extractLines_total_in_bounds [of demoLines20 21 25] len by simp
  from extractLines_total_in_bounds [of demoLines20 19 300] len
  obtain i j where "int i = 18" "int j = 20"
    "extractLines demoLines20 19 300 = Inr (Join (take (j - i) (drop i demoLines20)) [NL])"
    by auto
  moreover from this have "i = 18" "j = 20" by linarith+
  ultimately have "extractLines demoLines20 19 300 = Inr (''line 19'' @ [NL] @ ''line 20'')"
    by (simp add: demoLines20_def)
  with a b show ?thesis by simp
qed

lemma fixJSONLoop_idem:
  "fixJSONLoop inString escaped (fixJSONLoop inString escaped s) = fixJSONLoop inString escaped s"
  by (induction s arbitrary: inString escaped) auto

lemma spaceRunes_nonempty: "e \<in> set spaceRunes \<Longrightarrow> e \<noteq> []"
  by (auto simp: spaceRunes_def)

lemma spaceRunes_bytes:
  "e \<in> set spaceRunes \<Longrightarrow>
     BACKSLASH \<notin> set e \<and> DQUOTE \<notin> set e \<and> CHR ''n'' \<notin> set e \<and> CHR ''t'' \<notin> set e"
  by (auto simp: spaceRunes_def)

lemma runeLen_zero_iff:
  assumes "\<And>e. e \<in> set encs \<Longrightarrow> e \<noteq> []"
  shows "runeLen encs s = 0 \<longleftrightarrow> (\<forall>e \<in> set encs. \<not> prefix e s)"
proof
  assume z: "runeLen encs s = 0"
  show "\<forall>e \<in> set encs. \<not> prefix e s"
  proof (cases "find (\<lambda>e. prefix e s) encs")
    case None
    then show ?thesis by (simp add: find_None_iff)
  next
    case (Some e)
    then have "e \<in> set encs" by (auto simp: find_Some_iff)
    with assms z Some show ?thesis by (auto simp: runeLen_def)
  qed
next
  assume "\<forall>e \<in> set encs. \<not> prefix e s"
  then have "find (\<lambda>e. prefix e s) encs = None" by (simp add: find_None_iff)
  then show "runeLen encs s = 0" by (simp add: runeLen_def)
qed

lemma trimLeftBy_fixed: "runeLen encs s = 0 \<Longrightarrow> trimLeftBy encs s = s"
  by (simp add: trimLeftBy.simps)

lemma trimLeftBy_result: "runeLen encs (trimLeftBy encs s) = 0"
  by (induction encs s rule: trimLeftBy.induct) (metis trimLeftBy.simps)

lemma trimLeftBy_suffix: "suffix (trimLeftBy encs s) s"
proof (induction encs s rule: trimLeftBy.induct)
  case (1 encs s)
  show ?case
  proof (cases "runeLen encs s = 0")
    case True
    then show ?thesis by (simp add: trimLeftBy.simps)
  next
    case False
    with 1 have "suffix (trimLeftBy encs (drop (runeLen encs s) s)) (drop (runeLen encs s) s)"
      by simp
    then have "suffix (trimLeftBy encs (drop (runeLen encs s) s)) s"
      using suffix_drop suffix_order.trans by blast
    with False show ?thesis by (subst trimLeftBy.simps) simp
  qed
qed

lemma rev_runes_nonempty: "e \<in> set (map rev spaceRunes) \<Longrightarrow> e \<noteq> []"
  using spaceRunes_nonempty by auto

lemma TrimSpace_trimmed: "trimmed (TrimSpace s)"
proof -
  let ?a = "trimLeftBy spaceRunes s"
  let ?b = "trimLeftBy (map rev spaceRunes) (rev ?a)"
  have a0: "\<forall>e \<in> set spaceRunes. \<not> prefix e ?a"
    using trimLeftBy_result [of spaceRunes s] runeLen_zero_iff [of spaceRunes ?a] spaceRunes_nonempty
    by blast
  have b0: "\<forall>e \<in> set (map rev spaceRunes). \<not> prefix e ?b"
    using trimLeftBy_result [of "map rev spaceRunes" "rev ?a"]
      runeLen_zero_iff [of "map rev spaceRunes" ?b] rev_runes_nonempty
    by blast
  have "suffix ?b (rev ?a)" by (rule trimLeftBy_suffix)
  then have pre: "prefix (rev ?b) ?a" by (metis suffix_to_prefix rev_rev_ident)
  show ?thesis
    unfolding trimmed_def TrimSpace_def
  proof (intro ballI conjI)
    fix e assume e: "e \<in> set spaceRunes"
    show "\<not> prefix e (rev ?b)"
      using pre a0 e prefix_order.trans by blast
    show "\<not> suffix e (rev ?b)"
      using b0 e by (auto simp: suffix_to_prefix)
  qed
qed

lemma trimmed_TrimSpace: "trimmed s \<Longrightarrow> TrimSpace s = s"
proof -
  assume t: "trimmed s"
  have l: "runeLen spaceRunes s = 0"
    using t runeLen_zero_iff [of spaceRunes s] spaceRunes_nonempty by (auto simp: trimmed_def)
  have "\<forall>e \<in> set (map rev spaceRunes). \<not> prefix e (rev s)"
    using t by (auto simp: trimmed_def suffix_to_prefix)
  then have r: "runeLen (map rev spaceRunes) (rev s) = 0"
    using runeLen_zero_iff [of "map rev spaceRunes" "rev s"] rev_runes_nonempty by blast
  show ?thesis by (simp add: TrimSpace_def trimLeftBy_fixed l r)
qed

lemma fixJSONLoop_prefix:
  "BACKSLASH \<notin> set e \<Longrightarrow> DQUOTE \<notin> set e \<Longrightarrow> prefix e (fixJSONLoop False False u) \<Longrightarrow> prefix e u"
proof (induction e arbitrary: u)
  case Nil
  then show ?case by simp
next
  case (Cons c e)
  show ?case
  proof (cases u)
    case Nil
    with Cons.prems show ?thesis by simp
  next
    case (Cons d u')
    with Cons.prems have "c = d \<and> prefix e (fixJSONLoop False False u')"
      by (auto split: if_splits)
    with Cons.IH [of u'] Cons.prems Cons show ?thesis by simp
  qed
qed

lemma fixJSONLoop_snoc:
  "\<exists>out. fixJSONLoop i esc (v @ [c]) = fixJSONLoop i esc v @ out
         \<and> (out = [c] \<or> out = [BACKSLASH, CHR ''n''] \<or> out = [BACKSLASH, CHR ''t''])"
  by (induction v arbitrary: i esc) auto

lemma fixJSONLoop_suffix:
  "BACKSLASH \<notin> set e \<Longrightarrow> CHR ''n'' \<notin> set e \<Longrightarrow> CHR ''t'' \<notin> set e
   \<Longrightarrow> suffix e (fixJSONLoop i esc u) \<Longrightarrow> suffix e u"
proof (induction e arbitrary: u rule: rev_induct)
  case Nil
  then show ?case by simp
next
  case (snoc x e)
  show ?case
  proof (cases u rule: rev_cases)
    case Nil
    with snoc.prems show ?thesis by simp
  next
    case (snoc v c)
    obtain out where out: "fixJSONLoop i esc (v @ [c]) = fixJSONLoop i esc v @ out"
      "out = [c] \<or> out = [BACKSLASH, CHR ''n''] \<or> out = [BACKSLASH, CHR ''t'']"
      using fixJSONLoop_snoc by blast
    from snoc.prems(4) snoc out(1) have suf: "suffix (e @ [x]) (fixJSONLoop i esc v @ out)"
      by simp
    have "out = [c]"
    proof (rule ccontr)
      assume "out \<noteq> [c]"
      with out(2) obtain y where "out = [BACKSLASH, y]" "y = CHR ''n'' \<or> y = CHR ''t''" by auto
      with suf have "suffix (e @ [x]) ((fixJSONLoop i esc v @ [BACKSLASH]) @ [y])" by simp
      then have "x = y"
        using snoc_suffix_snoc [of e x "fixJSONLoop i esc v @ [BACKSLASH]" y] by simp
      with \<open>y = CHR ''n'' \<or> y = CHR ''t''\<close> snoc.prems(2,3) show False by auto
    qed
    with suf have "suffix (e @ [x]) (fixJSONLoop i esc v @ [c])" by simp
    then have "x = c" "suffix e (fixJSONLoop i esc v)" by auto
    with snoc.IH [of v] snoc.prems(1,2,3) have "suffix e v" by simp
    with \<open>x = c\<close> snoc show ?thesis by simp
  qed
qed

lemma fix_trimmed: "trimmed u \<Longrightarrow> trimmed (fixJSONStringEscaping u)"
  unfolding trimmed_def fixJSONStringEscaping_def
  using fixJSONLoop_prefix fixJSONLoop_suffix spaceRunes_bytes by blast

lemma strip_unfenced:
  assumes "trimmed n" and "\<not> prefix ''```'' n" and "\<not> suffix ''```'' n"
  shows "stripMarkdownCodeFences n = n"
proof -
  have "\<not> prefix ''```json'' n"
    using assms(2) by (metis append_Cons append_Nil prefix_order.trans prefixI)
  with assms show ?thesis
    by (simp add: stripMarkdownCodeFences_def trimmed_TrimSpace HasPrefix_def TrimSuffix_def Let_def)
qed

text \<open>
  C5 (amended). The escape-repair pass is idempotent on every input, and the normalizer
  (fence-stripping, then escape-repair) is idempotent on every input whose normalized form
  neither begins nor ends with a fence \<open>```\<close>. One pass removes one layer of fences
  only, so the normalizer is not idempotent on a response fenced twice.
\<close>

theorem normalize_idem_amended:
  "fixJSONStringEscaping (fixJSONStringEscaping s) = fixJSONStringEscaping s
   \<and> (\<not> prefix ''```'' (normalize s) \<and> \<not> suffix ''```'' (normalize s)
        \<longrightarrow> normalize (normalize s) = normalize s)"
proof (intro conjI impI)
  show idem: "fixJSONStringEscaping (fixJSONStringEscaping s) = fixJSONStringEscaping s"
    by (simp add: fixJSONStringEscaping_def fixJSONLoop_idem)
  assume nf: "\<not> prefix ''```'' (normalize s) \<and> \<not> suffix ''```'' (normalize s)"
  have "trimmed (stripMarkdownCodeFences s)"
    by (simp add: stripMarkdownCodeFences_def Let_def TrimSpace_trimmed)
  then have "trimmed (normalize s)" by (simp add: normalize_def fix_trimmed)
  with nf have "stripMarkdownCodeFences (normalize s) = normalize s"
    by (simp add: strip_unfenced)
  then show "normalize (normalize s) = normalize s"
    by (simp add: normalize_def fixJSONStringEscaping_def fixJSONLoop_idem)
qed

theorem normalize_idem_amended_witness:
  "\<not> prefix ''```'' (normalize singleFence) \<and> \<not> suffix ''```'' (normalize singleFence)
   \<and> normalize (normalize singleFence) = normalize singleFence
   \<and> normalize singleFence = ''{}''"
proof -
  have n: "normalize singleFence = ''{}''" by code_simp
  have h: "\<not> prefix ''```'' (normalize singleFence) \<and> \<not> suffix ''```'' (normalize singleFence)"
    unfolding n by (simp add: suffix_to_prefix)
  from normalize_idem_amended [of singleFence] h n show ?thesis by blast
qed

text \<open>C5 as stated fails: on a response fenced twice the second pass strips the inner
  fence that the first pass left.\<close>

theorem normalize_not_idempotent:
  "normalize nestedFences = ''```json'' @ [NL] @ ''{}'' @ [NL] @ ''```''
   \<and> normalize (normalize nestedFences) = ''{}''
   \<and> normalize (normalize nestedFences) \<noteq> normalize nestedFences"
  by code_simp

lemma Split_no_sep: "sep \<notin> set s \<Longrightarrow> Split s sep = [s]"
  by (induction s) auto

lemma Split_append_sep:
  "sep \<notin> set x \<Longrightarrow> Split (x @ sep # rest) sep = x # Split rest sep"
  by (induction x) auto

lemma Split_Join:
  "ls \<noteq> [] \<Longrightarrow> \<forall>l \<in> set ls. sep \<notin> set l \<Longrightarrow> Split (Join ls [sep]) sep = ls"
proof (induction ls "[sep]" rule: Join.induct)
  case 1
  then show ?case by simp
next
  case (2 x)
  then show ?case by (simp add: Split_no_sep)
next
  case (3 x y ys)
  then show ?case by (simp add: Split_append_sep)
qed










lemma scanJobs_results:
  assumes "scanJobs s fs files acc c = (results, c')" and "r \<in> set results"
  shows "r \<in> set acc \<or> (\<exists>f \<in> set files. \<exists>c0 c1. scanFileWithProgress s fs f c0 = (Inr r, c1))"
  using assms
proof (induction files arbitrary: acc c)
  case Nil
  then show ?case by simp
next
  case (Cons f files)
  obtain res c1 where step: "scanFileWithProgress s fs f c = (res, c1)"
    by (cases "scanFileWithProgress s fs f c")
  show ?case
  proof (cases res)
    case (Inl e)
    with Cons.prems step have "scanJobs s fs files acc c1 = (results, c')" by simp
    from Cons.IH [OF this Cons.prems(2)] show ?thesis by auto
  next
    case (Inr x)
    with Cons.prems step have "scanJobs s fs files (acc @ [x]) c1 = (results, c')" by simp
    from Cons.IH [OF this Cons.prems(2)] step Inr show ?thesis by auto
  qed
qed






lemma scanTriadFiles_result:
  assumes "scanTriadFiles s fs files c = (Inr r, c')"
  shows "(triadContext s fs files = None \<longrightarrow> r = emptyResult ''triad:multi'' \<and> c' = c)
       \<and> (\<forall>sharedContext. triadContext s fs files = Some sharedContext \<longrightarrow>
            (\<exists>lastReport rounds.
               triadLoop s sharedContext 1 zeroReport '''' c = (Inr (lastReport, rounds), c')
               \<and> marshalReport s lastReport = Some (RawFindings r)
               \<and> HasIssues r = (Vulnerabilities lastReport \<noteq> [])
               \<and> Issues r = [] \<and> FilePath r = ''triad:multi''))"
  using assms
  by (auto simp: scanTriadFiles_def triadContext_def emptyResult_def Let_def
           split: if_splits sum.splits prod.splits option.splits)

lemma scanTriadFiles_HasIssues:
  assumes "scanTriadFiles s fs files c = (Inr r, c')"
  shows "Issues r = []
       \<and> (HasIssues r \<longleftrightarrow>
            (\<exists>lastReport rounds. triadFinalReport s fs files c = Some (lastReport, rounds)
               \<and> Vulnerabilities lastReport \<noteq> []))"
proof (cases "triadContext s fs files")
  case None
  with scanTriadFiles_result [OF assms] show ?thesis
    by (simp add: triadFinalReport_def emptyResult_def)
next
  case (Some sharedContext)
  with scanTriadFiles_result [OF assms] obtain lastReport rounds where
    "triadLoop s sharedContext 1 zeroReport '''' c = (Inr (lastReport, rounds), c')"
    "HasIssues r = (Vulnerabilities lastReport \<noteq> [])" "Issues r = []"
    by blast
  with Some show ?thesis by (simp add: triadFinalReport_def)
qed

lemma scanFile_security:
  assumes "scanType s = ''security''" and "scanFileWithProgress s fs f c = (Inr r, c')"
  shows "HasIssues r \<longleftrightarrow> Issues r \<noteq> []"
  using assms
  by (auto simp: scanFileWithProgress_def Let_def
           split: sum.splits if_splits prod.splits option.splits)

lemma TrimSpace_Nil: "TrimSpace '''' = ''''"
  by code_simp

lemma scanFile_custom:
  assumes "scanType s \<noteq> ''security''" and "scanFileWithProgress s fs f c = (Inr r, c')"
  shows "Issues r = [] \<and> (HasIssues r \<longleftrightarrow> TrimSpace (RawFindings r) \<noteq> '''')"
  using assms
  by (auto simp: scanFileWithProgress_def Let_def TrimSpace_Nil
           split: sum.splits if_splits prod.splits option.splits)

lemma demo_texts:
  "stripMarkdownCodeFences auditLowJSON = auditLowJSON"
  "stripMarkdownCodeFences auditHighJSON = auditHighJSON"
  "fixJSONStringEscaping auditLowJSON = auditLowJSON"
  "fixJSONStringEscaping auditHighJSON = auditHighJSON"
  "stripMarkdownCodeFences oneFindingJSON = oneFindingJSON"
  "fixJSONStringEscaping oneFindingJSON = oneFindingJSON"
  "stripMarkdownCodeFences ''{}'' = ''{}''"
  "TrimSpace ''unclear'' = ''unclear''"
  "TrimSpace ''done'' = ''done''"
  "TrimSpace ''Looks fine.'' = ''Looks fine.''"
  "auditHighJSON \<noteq> auditLowJSON"
  "oneFindingJSON \<noteq> noFindingsJSON"
  by code_simp+


text \<open>
  C1 (amended). For every \<open>ScanResult\<close> returned by \<open>ScanFiles\<close>: in security mode
  \<open>HasIssues\<close> holds iff the issues list is non-empty; in triad mode the issues list is
  empty and \<open>HasIssues\<close> holds iff the round loop ended with a report whose vulnerabilities
  list is non-empty; in custom mode (any other scan type) the issues list is always empty
  and \<open>HasIssues\<close> holds iff the response of the model, kept in \<open>RawFindings\<close>, is not
  blank.
\<close>

theorem hasIssues_by_mode:
  assumes "ScanFiles s fs files c = (Inr results, c')" and "r \<in> set results"
  shows "(scanType s = ''security'' \<longrightarrow> (HasIssues r \<longleftrightarrow> Issues r \<noteq> []))
       \<and> (scanType s = ''triad'' \<longrightarrow> Issues r = []
            \<and> (HasIssues r \<longleftrightarrow>
                 (\<exists>lastReport rounds. triadFinalReport s fs files c = Some (lastReport, rounds)
                    \<and> Vulnerabilities lastReport \<noteq> [])))
       \<and> (scanType s \<noteq> ''security'' \<and> scanType s \<noteq> ''triad'' \<longrightarrow>
            Issues r = [] \<and> (HasIssues r \<longleftrightarrow> TrimSpace (RawFindings r) \<noteq> ''''))"
proof (intro conjI impI)
  assume sec: "scanType s = ''security''"
  then have "scanJobs s fs files [] c = (results, c')"
    using assms(1) by (auto simp: ScanFiles_def split: prod.splits)
  from scanJobs_results [OF this assms(2)] obtain f c0 c1
    where "scanFileWithProgress s fs f c0 = (Inr r, c1)" by auto
  from scanFile_security [OF sec this] show "HasIssues r \<longleftrightarrow> Issues r \<noteq> []" .
next
  assume tri: "scanType s = ''triad''"
  then have t: "scanTriadFiles s fs files c = (Inr r, c')"
    using assms by (auto simp: ScanFiles_def split: prod.splits sum.splits)
  from scanTriadFiles_HasIssues [OF t]
  show "Issues r = []"
    and "HasIssues r \<longleftrightarrow>
          (\<exists>lastReport rounds. triadFinalReport s fs files c = Some (lastReport, rounds)
              \<and> Vulnerabilities lastReport \<noteq> [])"
    by blast+
next
  assume cus: "scanType s \<noteq> ''security'' \<and> scanType s \<noteq> ''triad''"
  then have "scanJobs s fs files [] c = (results, c')"
    using assms(1) by (auto simp: ScanFiles_def split: prod.splits)
  from scanJobs_results [OF this assms(2)] obtain f c0 c1
    where r: "scanFileWithProgress s fs f c0 = (Inr r, c1)" by auto
  from cus have "scanType s \<noteq> ''security''" by simp
  from scanFile_custom [OF this r]
  show "Issues r = []" and "HasIssues r \<longleftrightarrow> TrimSpace (RawFindings r) \<noteq> ''''" by blast+
qed

theorem hasIssues_by_mode_witness:
  "ScanFiles (demoScanner ''security'') (mkFS [(''main.go'', ''x'')]) [''main.go'']
      [''{}'', oneFindingJSON]
   = (Inr [\<lparr>FilePath = ''main.go'', RawFindings = ''Security Analysis Report'',
             HasIssues = True, Issues = [zeroIssue\<lparr>LineStart := 5, LineEnd := 5\<rparr>]\<rparr>], [])
   \<and> ScanFiles (demoScanner ''custom'') (mkFS [(''main.go'', ''x'')]) [''main.go'']
      [''Looks fine.'']
   = (Inr [\<lparr>FilePath = ''main.go'', RawFindings = ''Looks fine.'',
             HasIssues = True, Issues = []\<rparr>], [])
   \<and> TrimSpace ''Looks fine.'' \<noteq> ''''"
proof -
  let ?r = "\<lparr>FilePath = ''main.go'', RawFindings = ''Security Analysis Report'',
             HasIssues = True, Issues = [zeroIssue\<lparr>LineStart := 5, LineEnd := 5\<rparr>]\<rparr>"
  let ?q = "\<lparr>FilePath = ''main.go'', RawFindings = ''Looks fine.'',
             HasIssues = True, Issues = []\<rparr>"
  have sec: "ScanFiles (demoScanner ''security'') (mkFS [(''main.go'', ''x'')]) [''main.go'']
      [''{}'', oneFindingJSON] = (Inr [?r], [])"
    by (simp add: ScanFiles_def scanFileWithProgress_def ReadFile_def demoScanner_def mkFS_def
          cannedGenerate_def demo_texts Let_def)
  have cus: "ScanFiles (demoScanner ''custom'') (mkFS [(''main.go'', ''x'')]) [''main.go'']
      [''Looks fine.''] = (Inr [?q], [])"
    by (simp add: ScanFiles_def scanFileWithProgress_def ReadFile_def demoScanner_def mkFS_def
          cannedGenerate_def demo_texts Let_def)
  have rmem: "?r \<in> set [?r]" and qmem: "?q \<in> set [?q]" by simp_all
  have m1: "scanType (demoScanner ''security'') = ''security''"
    by (simp add: demoScanner_def)
  have m2: "scanType (demoScanner ''custom'') \<noteq> ''security''
            \<and> scanType (demoScanner ''custom'') \<noteq> ''triad''"
    by (simp add: demoScanner_def)
  from hasIssues_by_mode [OF sec rmem, THEN conjunct1] m1
  have "HasIssues ?r \<longleftrightarrow> Issues ?r \<noteq> []" by (rule mp)
  from hasIssues_by_mode [OF cus qmem, THEN conjunct2, THEN conjunct2] m2
  have "Issues ?q = [] \<and> (HasIssues ?q \<longleftrightarrow> TrimSpace (RawFindings ?q) \<noteq> '''')" by (rule mp)
  then have "TrimSpace ''Looks fine.'' \<noteq> ''''" by simp
  with sec cus show ?thesis by (intro conjI)
qed

text \<open>C1 as stated fails in custom mode: a non-blank answer sets \<open>HasIssues\<close> although the
  issues list is empty.\<close>

theorem custom_hasIssues_without_issues:
  "fst (ScanFiles (demoScanner ''custom'') (mkFS [(''main.go'', ''x'')]) [''main.go'']
          [''Looks fine.''])
   = Inr [\<lparr>FilePath = ''main.go'', RawFindings = ''Looks fine.'', HasIssues = True,
            Issues = []\<rparr>]"
  by (simp add: ScanFiles_def scanFileWithProgress_def ReadFile_def demoScanner_def mkFS_def
        cannedGenerate_def demo_texts Let_def)





lemma Split_lines_no_sep: "l \<in> set (Split s sep) \<Longrightarrow> sep \<notin> set l"
  by (induction s arbitrary: l) (auto split: if_splits list.splits)

lemma set_trimLeftBy: "set (trimLeftBy encs s) \<subseteq> set s"
  using trimLeftBy_suffix [of encs s] by (rule set_mono_suffix)

lemma set_TrimSpace: "set (TrimSpace s) \<subseteq> set s"
proof -
  let ?a = "trimLeftBy spaceRunes s"
  have "set (trimLeftBy (map rev spaceRunes) (rev ?a)) \<subseteq> set (rev ?a)"
    by (rule set_trimLeftBy)
  then have "set (TrimSpace s) \<subseteq> set ?a" by (simp add: TrimSpace_def)
  also have "\<dots> \<subseteq> set s" by (rule set_trimLeftBy)
  finally show ?thesis .
qed

lemma reindentLine_no_NL:
  assumes "reindentLine oi m l = Inr r" and "NL \<notin> set oi" and "NL \<notin> set l"
  shows "NL \<notin> set r"
proof -
  have "NL \<notin> set (TrimSpace l)" using assms(3) set_TrimSpace [of l] by auto
  with assms(1,2) show ?thesis
    by (auto simp: reindentLine_def Repeat_def Let_def split: if_splits sum.splits)
qed

lemma mapE_member:
  "mapE f xs = Inr ys \<Longrightarrow> y \<in> set ys \<Longrightarrow> \<exists>x \<in> set xs. f x = Inr y"
  by (induction xs arbitrary: ys) (auto split: sum.splits)

lemma originalIndentAt_blank:
  "originalIndentAt ls a = Inr oi \<Longrightarrow> NL \<notin> set oi"
proof -
  assume a: "originalIndentAt ls a = Inr oi"
  have "\<And>line. NL \<notin> set (takeWhile (\<lambda>ch. ch = SPC \<or> ch = TAB) line)"
  proof
    fix line assume "NL \<in> set (takeWhile (\<lambda>ch. ch = SPC \<or> ch = TAB) line)"
    then have "NL = SPC \<or> NL = TAB" by (rule set_takeWhileD [THEN conjunct2])
    then show False by simp
  qed
  with a show ?thesis
    by (auto simp: originalIndentAt_def split: if_splits sum.splits)
qed

lemma spliceFix_shape:
  assumes ne: "ls \<noteq> []"
    and cl: "clampLines (int (length ls)) (LineStart issue) (LineEnd issue) = (a, b)"
  shows "\<exists>oi ys. originalIndentAt ls a = Inr oi
           \<and> mapE (reindentLine oi (minFixIndentOf (Split (TrimSuffix (SuggestedFix issue) [NL]) NL)))
                  (Split (TrimSuffix (SuggestedFix issue) [NL]) NL) = Inr ys
           \<and> spliceFix ls issue = Inr (take (nat (a - 1)) ls @ ys @ drop (nat b) ls)"
proof -
  from ne have n: "1 \<le> int (length ls)" by (cases ls) auto
  from clampLines_range [OF n cl] have r: "1 \<le> a" "a \<le> b" "b \<le> int (length ls)" by auto
  then obtain oi where oi: "originalIndentAt ls a = Inr oi"
    by (auto simp: originalIndentAt_def index_def)
  let ?fl = "Split (TrimSuffix (SuggestedFix issue) [NL]) NL"
  have "\<exists>ys. mapE (reindentLine oi (minFixIndentOf ?fl)) ?fl = Inr ys \<and> length ys = length ?fl"
    by (rule mapE_ok) (rule reindentLine_ok, rule minFixIndentOf_le_line)
  then obtain ys where ys: "mapE (reindentLine oi (minFixIndentOf ?fl)) ?fl = Inr ys" by blast
  have "spliceFix ls issue = Inr (take (nat (a - 1)) ls @ ys @ drop (nat b) ls)"
    using r cl oi ys by (auto simp: spliceFix_def slice_def Let_def)
  with oi ys show ?thesis by blast
qed

lemma spliceFix_lines_no_NL:
  assumes "\<forall>l \<in> set ls. NL \<notin> set l" and "spliceFix ls issue = Inr newLines" and "ls \<noteq> []"
  shows "\<forall>l \<in> set newLines. NL \<notin> set l"
proof -
  obtain a b where cl: "clampLines (int (length ls)) (LineStart issue) (LineEnd issue) = (a, b)"
    by (cases "clampLines (int (length ls)) (LineStart issue) (LineEnd issue)")
  let ?fl = "Split (TrimSuffix (SuggestedFix issue) [NL]) NL"
  from spliceFix_shape [OF assms(3) cl] obtain oi ys where
    oi: "originalIndentAt ls a = Inr oi"
    and ys: "mapE (reindentLine oi (minFixIndentOf ?fl)) ?fl = Inr ys"
    and sp: "spliceFix ls issue = Inr (take (nat (a - 1)) ls @ ys @ drop (nat b) ls)"
    by blast
  have ysnl: "\<forall>y \<in> set ys. NL \<notin> set y"
  proof
    fix y assume "y \<in> set ys"
    with mapE_member [OF ys] obtain x
      where x: "x \<in> set ?fl" "reindentLine oi (minFixIndentOf ?fl) x = Inr y" by blast
    from x(1) have "NL \<notin> set x" by (rule Split_lines_no_sep)
    with reindentLine_no_NL [OF x(2) originalIndentAt_blank [OF oi]]
    show "NL \<notin> set y" .
  qed
  show ?thesis
  proof
    fix l assume "l \<in> set newLines"
    with assms(2) sp
    have "l \<in> set (take (nat (a - 1)) ls) \<or> l \<in> set ys \<or> l \<in> set (drop (nat b) ls)"
      by auto
    then have "l \<in> set ls \<or> l \<in> set ys"
      using in_set_takeD in_set_dropD by fast
    with ysnl assms(1) show "NL \<notin> set l" by blast
  qed
qed

lemma Join_nonempty_lines:
  assumes "newLines \<noteq> []" and "\<forall>l \<in> set newLines. NL \<notin> set l"
  shows "Split (Join newLines [NL]) NL = newLines"
  using Split_Join [OF assms] .

lemma spliceFix_nonempty:
  assumes "ls \<noteq> []" and "spliceFix ls issue = Inr newLines"
  shows "newLines \<noteq> []"
proof -
  obtain a b where cl: "clampLines (int (length ls)) (LineStart issue) (LineEnd issue) = (a, b)"
    by (cases "clampLines (int (length ls)) (LineStart issue) (LineEnd issue)")
  let ?fl = "Split (TrimSuffix (SuggestedFix issue) [NL]) NL"
  from spliceFix_shape [OF assms(1) cl] obtain oi ys where
    ys: "mapE (reindentLine oi (minFixIndentOf ?fl)) ?fl = Inr ys"
    and sp: "spliceFix ls issue = Inr (take (nat (a - 1)) ls @ ys @ drop (nat b) ls)"
    by blast
  have "ys \<noteq> []"
  proof
    assume "ys = []"
    with ys have "?fl = []" by (cases ?fl) (auto split: sum.splits)
    then show False by (simp add: Split_nonempty)
  qed
  with sp assms(2) show ?thesis by auto
qed

lemma applyFix_result:
  assumes "FixAvailable issue" and "SuggestedFix issue \<noteq> ''''"
    and "contents fs path = Some c" and "writable fs path"
  shows "\<exists>newLines. spliceFix (Split c NL) issue = Inr newLines
           \<and> applyFix fs path issue = Inr (fs\<lparr>contents := (contents fs)(path \<mapsto> Join newLines [NL])\<rparr>)
           \<and> Split (Join newLines [NL]) NL = newLines"
proof -
  obtain newLines where sp: "spliceFix (Split c NL) issue = Inr newLines"
    using spliceFix_ok [OF Split_nonempty] by blast
  have "\<forall>l \<in> set (Split c NL). NL \<notin> set l" using Split_lines_no_sep by blast
  from spliceFix_lines_no_NL [OF this sp Split_nonempty]
  have nonl: "\<forall>l \<in> set newLines. NL \<notin> set l" .
  have ne: "newLines \<noteq> []" using spliceFix_nonempty [OF Split_nonempty sp] .
  have "applyFix fs path issue = Inr (fs\<lparr>contents := (contents fs)(path \<mapsto> Join newLines [NL])\<rparr>)"
    using assms sp by (simp add: applyFix_def ReadFile_def WriteFile_def)
  with sp Join_nonempty_lines [OF ne nonl] show ?thesis by blast
qed

lemma extract_trimmed: "trimmed (extractCodeFromResponse response)"
  by (simp add: extractCodeFromResponse_def Let_def TrimSpace_trimmed)

lemma trimmed_TrimSuffix_NL: "trimmed s \<Longrightarrow> TrimSuffix s [NL] = s"
proof -
  assume "trimmed s"
  moreover have "[NL] \<in> set spaceRunes" by (simp add: spaceRunes_def)
  ultimately have "\<not> suffix [NL] s" by (auto simp: trimmed_def)
  then show ?thesis by (simp add: TrimSuffix_def)
qed

lemma choice_a: "ToLower (TrimSpace ''a'') = ''a''"
  by code_simp

lemma sortFindings_single: "sortFindings [x] = [x]"
  by (simp add: sortFindings_def)


lemma prepareFix_FixAvailable: "FixAvailable (prepareFix ls issue) = FixAvailable issue"
  by (simp add: prepareFix_def Let_def)

lemma prepareFix_scenario:
  assumes "length ls = 20" and "LineStart issue = 10" and "LineEnd issue = 10"
    and "length (Split (extractCodeFromResponse (SuggestedFix issue)) NL) = 3"
  shows "prepareFix ls issue
         = issue\<lparr>SuggestedFix := extractCodeFromResponse (SuggestedFix issue), LineEnd := 12\<rparr>"
proof -
  have t: "TrimSpace (extractCodeFromResponse (SuggestedFix issue))
           = extractCodeFromResponse (SuggestedFix issue)"
    by (rule trimmed_TrimSpace) (rule extract_trimmed)
  show ?thesis using assms by (simp add: prepareFix_def Let_def t wrap64_def)
qed

lemma length3: "length ys = 3 \<Longrightarrow> \<exists>f1 f2 f3. ys = [f1, f2, f3]"
  by (auto simp: length_Suc_conv numeral_3_eq_3)

lemma mapE_length: "mapE f xs = Inr ys \<Longrightarrow> length ys = length xs"
  by (induction xs arbitrary: ys) (auto split: sum.splits)

lemma originalIndentAt_value:
  "1 \<le> a \<Longrightarrow> a \<le> int (length ls) \<Longrightarrow>
   originalIndentAt ls a = Inr (takeWhile (\<lambda>ch. ch = SPC \<or> ch = TAB) (ls ! nat (a - 1)))"
  by (auto simp: originalIndentAt_def index_def)

lemma prepareFix_SuggestedFix:
  "SuggestedFix (prepareFix ls issue) = extractCodeFromResponse (SuggestedFix issue)"
  by (simp add: prepareFix_def Let_def)

text \<open>The apply action on a list of one finding: backup, widening, \<open>applyFix\<close>, reload, and
  the review ends.\<close>

lemma review_apply_single:
  assumes rd: "contents fs filePath = Some c"
    and w1: "writable fs filePath"
    and w2: "writable fs (filePath @ ''.backup'')"
    and fa: "FixAvailable issue"
    and fixne: "extractCodeFromResponse (SuggestedFix issue) \<noteq> ''''"
  shows "\<exists>newLines.
           spliceFix (Split c NL) (prepareFix (Split c NL) issue) = Inr newLines
           \<and> Split (Join newLines [NL]) NL = newLines
           \<and> ReviewFindings fs [issue] filePath [''a'']
               = (None, fs\<lparr>contents := (contents fs)(filePath @ ''.backup'' \<mapsto> c,
                                                      filePath \<mapsto> Join newLines [NL])\<rparr>)"
proof -
  let ?issue = "prepareFix (Split c NL) issue"
  let ?fs1 = "fs\<lparr>contents := (contents fs)(filePath @ ''.backup'' \<mapsto> c)\<rparr>"
  have bk: "filePath @ ''.backup'' \<noteq> filePath" by simp
  have rd1: "contents ?fs1 filePath = Some c" using rd bk by simp
  have w1': "writable ?fs1 filePath" using w1 by simp
  have fa': "FixAvailable ?issue" "SuggestedFix ?issue \<noteq> ''''"
    using fa fixne by (simp_all add: prepareFix_FixAvailable prepareFix_SuggestedFix)
  from applyFix_result [OF fa' rd1 w1'] obtain newLines where
    sp: "spliceFix (Split c NL) ?issue = Inr newLines"
    and ap: "applyFix ?fs1 filePath ?issue
             = Inr (?fs1\<lparr>contents := (contents ?fs1)(filePath \<mapsto> Join newLines [NL])\<rparr>)"
    and sj: "Split (Join newLines [NL]) NL = newLines"
    by auto
  have "ReviewFindings fs [issue] filePath [''a'']
        = (None, ?fs1\<lparr>contents := (contents ?fs1)(filePath \<mapsto> Join newLines [NL])\<rparr>)"
    using rd w2 fa ap
    by (simp add: ReviewFindings_def sortFindings_single ReadFile_def reviewStep_def index_def
          choice_a WriteFile_def Let_def)
  with sp sj show ?thesis by simp
qed

text \<open>
  C3 (amended). Applying, through the Reviewer's apply action, a suggested fix of 3 lines to
  a finding with \<open>lineStart = lineEnd = 10\<close> in a 20-line file widens the range to lines
  10--12 and replaces it: the file still has 20 lines, the 3 fix lines (re-indented to the
  indentation of the original line 10) occupy positions 10--12, position 13 holds the
  original line 13, and the original lines 11 and 12 are gone. The original content is
  kept in the backup file.
\<close>

theorem apply_three_line_fix:
  assumes len: "length ls = 20"
    and nonl: "\<forall>l \<in> set ls. NL \<notin> set l"
    and rd: "contents fs filePath = Some (Join ls [NL])"
    and w1: "writable fs filePath"
    and w2: "writable fs (filePath @ ''.backup'')"
    and fa: "FixAvailable issue"
    and st: "LineStart issue = 10" and en: "LineEnd issue = 10"
    and three: "length (Split (extractCodeFromResponse (SuggestedFix issue)) NL) = 3"
  shows "\<exists>fs' f1 f2 f3.
           ReviewFindings fs [issue] filePath [''a''] = (None, fs')
           \<and> fileLines fs' filePath = take 9 ls @ [f1, f2, f3] @ drop 12 ls
           \<and> length (fileLines fs' filePath) = 20
           \<and> fileLines fs' filePath ! 12 = ls ! 12
           \<and> mapE (reindentLine (takeWhile (\<lambda>ch. ch = SPC \<or> ch = TAB) (ls ! 9))
                     (minFixIndentOf (Split (extractCodeFromResponse (SuggestedFix issue)) NL)))
                  (Split (extractCodeFromResponse (SuggestedFix issue)) NL) = Inr [f1, f2, f3]
           \<and> contents fs' (filePath @ ''.backup'') = Some (Join ls [NL])"
proof -
  let ?fix = "extractCodeFromResponse (SuggestedFix issue)"
  let ?issue = "issue\<lparr>SuggestedFix := ?fix, LineEnd := 12\<rparr>"
  let ?oi = "takeWhile (\<lambda>ch. ch = SPC \<or> ch = TAB) (ls ! 9)"
  from len have ne: "ls \<noteq> []" by auto
  have split: "Split (Join ls [NL]) NL = ls" using Split_Join [OF ne nonl] .
  have prep: "prepareFix ls issue = ?issue"
    using prepareFix_scenario [OF len st en three] .
  have fixne: "?fix \<noteq> ''''" using three by auto
  have bk: "filePath @ ''.backup'' \<noteq> filePath" by simp
  from review_apply_single [OF rd w1 w2 fa fixne] obtain newLines where
    r: "spliceFix (Split (Join ls [NL]) NL) (prepareFix (Split (Join ls [NL]) NL) issue)
          = Inr newLines
        \<and> Split (Join newLines [NL]) NL = newLines
        \<and> ReviewFindings fs [issue] filePath [''a'']
              = (None, fs\<lparr>contents := (contents fs)(filePath @ ''.backup'' \<mapsto> Join ls [NL],
                                                     filePath \<mapsto> Join newLines [NL])\<rparr>)"
    ..
  let ?fs2 = "fs\<lparr>contents := (contents fs)(filePath @ ''.backup'' \<mapsto> Join ls [NL],
                                             filePath \<mapsto> Join newLines [NL])\<rparr>"
  from r have sp: "spliceFix ls ?issue = Inr newLines"
    unfolding split prep by (rule conjunct1)
  from r have sj: "Split (Join newLines [NL]) NL = newLines"
    by (rule conjunct2 [THEN conjunct1])
  from r have run: "ReviewFindings fs [issue] filePath [''a''] = (None, ?fs2)"
    by (rule conjunct2 [THEN conjunct2])
  have cl: "clampLines (int (length ls)) (LineStart ?issue) (LineEnd ?issue) = (10, 12)"
    using len st by (simp add: clampLines_def)
  let ?fl = "Split (TrimSuffix ?fix [NL]) NL"
  have fl: "?fl = Split ?fix NL"
    using trimmed_TrimSuffix_NL [OF extract_trimmed] by simp
  have oi: "originalIndentAt ls 10 = Inr ?oi"
    using originalIndentAt_value [of 10 ls] len by simp
  from spliceFix_shape [OF ne cl]
  have "\<exists>oi' ys. originalIndentAt ls 10 = Inr oi'
          \<and> mapE (reindentLine oi' (minFixIndentOf ?fl)) ?fl = Inr ys
          \<and> spliceFix ls ?issue = Inr (take 9 ls @ ys @ drop 12 ls)"
    by simp
  then obtain oi' ys where
    s1: "originalIndentAt ls 10 = Inr oi'"
    and s2: "mapE (reindentLine oi' (minFixIndentOf ?fl)) ?fl = Inr ys"
    and s3: "spliceFix ls ?issue = Inr (take 9 ls @ ys @ drop 12 ls)"
    by blast
  from s1 oi have "oi' = ?oi" by simp
  with s2 fl have ys: "mapE (reindentLine ?oi (minFixIndentOf (Split ?fix NL))) (Split ?fix NL) = Inr ys"
    by simp
  from s3 sp have nl: "newLines = take 9 ls @ ys @ drop 12 ls" by simp
  from mapE_length [OF ys] three have "length ys = 3" by simp
  then obtain f1 f2 f3 where f: "ys = [f1, f2, f3]" using length3 by blast
  have c2: "fileLines ?fs2 filePath = take 9 ls @ [f1, f2, f3] @ drop 12 ls"
    using sj nl f by (simp add: fileLines_def)
  have b2: "contents ?fs2 (filePath @ ''.backup'') = Some (Join ls [NL])" using bk by simp
  have l20: "length (take 9 ls @ [f1, f2, f3] @ drop 12 ls) = 20" using len by simp
  have n12: "(take 9 ls @ [f1, f2, f3] @ drop 12 ls) ! 12 = ls ! 12"
    using len by (simp add: nth_append)
  show ?thesis
  proof (intro exI conjI)
    show "ReviewFindings fs [issue] filePath [''a''] = (None, ?fs2)" by (rule run)
    show "fileLines ?fs2 filePath = take 9 ls @ [f1, f2, f3] @ drop 12 ls" by (rule c2)
    show "length (fileLines ?fs2 filePath) = 20" unfolding c2 by (rule l20)
    show "fileLines ?fs2 filePath ! 12 = ls ! 12" unfolding c2 by (rule n12)
    show "mapE (reindentLine ?oi (minFixIndentOf (Split ?fix NL))) (Split ?fix NL)
          = Inr [f1, f2, f3]" using ys f by simp
    show "contents ?fs2 (filePath @ ''.backup'') = Some (Join ls [NL])" by (rule b2)
  qed
qed

lemma demo20_facts:
  "length demoLines20 = 20"
  "\<forall>l \<in> set demoLines20. NL \<notin> set l"
  "contents demoFS20 ''main.go'' = Some (Join demoLines20 [NL])"
  "writable demoFS20 ''main.go''"
  "writable demoFS20 (''main.go'' @ ''.backup'')"
  "Split (Join demoLines20 [NL]) NL = demoLines20"
proof -
  show l: "length demoLines20 = 20" and n: "\<forall>l \<in> set demoLines20. NL \<notin> set l"
    by (simp_all add: demoLines20_def)
  show "contents demoFS20 ''main.go'' = Some (Join demoLines20 [NL])"
    and "writable demoFS20 ''main.go''" and "writable demoFS20 (''main.go'' @ ''.backup'')"
    by (simp_all add: demoFS20_def mkFS_def)
  from l have "demoLines20 \<noteq> []" by auto
  from Split_Join [OF this n] show "Split (Join demoLines20 [NL]) NL = demoLines20" .
qed

lemma demoFix3_facts:
  "extractCodeFromResponse demoFix3 = demoFix3"
  "Split demoFix3 NL = [''fix A'', ''  fix B'', ''fix C'']"
  by code_simp+

theorem apply_three_line_fix_witness:
  "length demoLines20 = 20 \<and> LineStart (demoIssue 10 10 demoFix3) = 10
   \<and> LineEnd (demoIssue 10 10 demoFix3) = 10
   \<and> length (Split (extractCodeFromResponse (SuggestedFix (demoIssue 10 10 demoFix3))) NL) = 3
   \<and> (\<exists>fs' f1 f2 f3.
         ReviewFindings demoFS20 [demoIssue 10 10 demoFix3] ''main.go'' [''a''] = (None, fs')
         \<and> fileLines fs' ''main.go'' = take 9 demoLines20 @ [f1, f2, f3] @ drop 12 demoLines20
         \<and> length (fileLines fs' ''main.go'') = 20
         \<and> fileLines fs' ''main.go'' ! 12 = demoLines20 ! 12)"
proof -
  have fa: "FixAvailable (demoIssue 10 10 demoFix3)" by (simp add: demoIssue_def)
  have st: "LineStart (demoIssue 10 10 demoFix3) = 10"
    and en: "LineEnd (demoIssue 10 10 demoFix3) = 10" by (simp_all add: demoIssue_def)
  have three: "length (Split (extractCodeFromResponse (SuggestedFix (demoIssue 10 10 demoFix3))) NL) = 3"
    by (simp add: demoIssue_def demoFix3_facts)
  from apply_three_line_fix [OF demo20_facts(1-5) fa st en three] demo20_facts(1) st en three
  show ?thesis by blast
qed

text \<open>C3 as stated fails: the file keeps its 20 lines (not 22), and position 13 holds the
  original line 13 (not line 11): the original lines 11 and 12 have been replaced.\<close>

theorem three_line_fix_replaces_three_lines:
  "fst (ReviewFindings demoFS20 [demoIssue 10 10 demoFix3] ''main.go'' [''a'']) = None
   \<and> fileLines (snd (ReviewFindings demoFS20 [demoIssue 10 10 demoFix3] ''main.go'' [''a'']))
        ''main.go''
      = [''line 01'', ''line 02'', ''line 03'', ''line 04'', ''line 05'',
         ''line 06'', ''line 07'', ''line 08'', ''line 09'',
         ''  fix A'', ''    fix B'', ''  fix C'',
         ''line 13'', ''line 14'', ''line 15'', ''line 16'', ''line 17'', ''line 18'',
         ''line 19'', ''line 20'']"
proof -
  let ?new = "[''line 01'', ''line 02'', ''line 03'', ''line 04'', ''line 05'',
         ''line 06'', ''line 07'', ''line 08'', ''line 09'',
         ''  fix A'', ''    fix B'', ''  fix C'',
         ''line 13'', ''line 14'', ''line 15'', ''line 16'', ''line 17'', ''line 18'',
         ''line 19'', ''line 20'']"
  have fa: "FixAvailable (demoIssue 10 10 demoFix3)" by (simp add: demoIssue_def)
  have ex: "extractCodeFromResponse (SuggestedFix (demoIssue 10 10 demoFix3)) = demoFix3"
    by (simp add: demoIssue_def demoFix3_facts(1))
  have "demoFix3 \<noteq> ''''" by (simp add: demoFix3_def)
  with ex have fixne: "extractCodeFromResponse (SuggestedFix (demoIssue 10 10 demoFix3)) \<noteq> ''''"
    by simp
  have three: "length (Split (extractCodeFromResponse (SuggestedFix (demoIssue 10 10 demoFix3))) NL) = 3"
    unfolding ex demoFix3_facts(2) by simp
  have "prepareFix demoLines20 (demoIssue 10 10 demoFix3)
        = (demoIssue 10 10 demoFix3)\<lparr>SuggestedFix := extractCodeFromResponse
             (SuggestedFix (demoIssue 10 10 demoFix3)), LineEnd := 12\<rparr>"
    using demo20_facts(1) _ _ three
    by (rule prepareFix_scenario) (simp_all add: demoIssue_def)
  then have prep: "prepareFix demoLines20 (demoIssue 10 10 demoFix3) = demoIssue 10 12 demoFix3"
    unfolding ex by (simp add: demoIssue_def)
  have sp: "spliceFix demoLines20 (demoIssue 10 12 demoFix3) = Inr ?new" by code_simp
  from review_apply_single [OF demo20_facts(3,4,5) fa fixne]
  obtain newLines where
    r: "spliceFix (Split (Join demoLines20 [NL]) NL)
          (prepareFix (Split (Join demoLines20 [NL]) NL) (demoIssue 10 10 demoFix3)) = Inr newLines
        \<and> Split (Join newLines [NL]) NL = newLines
        \<and> ReviewFindings demoFS20 [demoIssue 10 10 demoFix3] ''main.go'' [''a'']
       = (None, demoFS20\<lparr>contents := (contents demoFS20)(''main.go'' @ ''.backup'' \<mapsto>
                             Join demoLines20 [NL], ''main.go'' \<mapsto> Join newLines [NL])\<rparr>)"
    ..
  note a = r [THEN conjunct1] and b = r [THEN conjunct2, THEN conjunct1]
    and c = r [THEN conjunct2, THEN conjunct2]
  from a have eq: "newLines = ?new" unfolding demo20_facts(6) prep sp by (rule Inr_inject [symmetric])
  have lines: "fileLines (demoFS20\<lparr>contents := (contents demoFS20)(''main.go'' @ ''.backup'' \<mapsto>
                             Join demoLines20 [NL], ''main.go'' \<mapsto> Join newLines [NL])\<rparr>) ''main.go''
        = newLines"
    by (simp add: fileLines_def b del: Join.simps Split.simps)
  from lines eq c show ?thesis by simp
qed











end
